theory Spec2Isabelle
  imports Complex_Main "HOL-Library.Sublist"
begin

section \<open>Values read from JSON\<close>

text \<open>
  The reporting code works on whatever \<^verbatim>\<open>json.load\<close> returns: \<^verbatim>\<open>None\<close>, booleans,
  integers, strings, lists and dictionaries. A dictionary read from JSON has distinct
  string keys in insertion order, so it is an association list, looked up with
  \<open>map_of\<close>. Numbers with a fraction or an exponent (Python floats) are left out: no
  function below computes with a number of the input. A Python \<^verbatim>\<open>str\<close> is modelled by
  \<open>string\<close>.
\<close>

datatype json =
    JNull
  | JBool bool
  | JInt int
  | JStr string
  | JArr "json list"
  | JObj "(string \<times> json) list"

text \<open>The exceptions the code can raise, as values.\<close>

datatype error =
    AttributeError
  | TypeError
  | KeyError
  | ValueError string

text \<open>\<^verbatim>\<open>d.get(key, default)\<close>: only a dictionary has the method.\<close>

fun py_get :: "json \<Rightarrow> string \<Rightarrow> json \<Rightarrow> error + json" where
  "py_get (JObj kvs) k d = Inr (case map_of kvs k of None \<Rightarrow> d | Some v \<Rightarrow> v)"
| "py_get _ k d = Inl AttributeError"

text \<open>\<^verbatim>\<open>s.startswith(p)\<close> on two strings, character by character.\<close>

fun startswith :: "string \<Rightarrow> string \<Rightarrow> bool" where
  "startswith s [] = True"
| "startswith [] (c # cs) = False"
| "startswith (x # xs) (c # cs) = (x = c \<and> startswith xs cs)"

text \<open>\<^verbatim>\<open>policy.startswith(mapping)\<close>: only a string has the method.\<close>

fun py_startswith :: "json \<Rightarrow> string \<Rightarrow> error + bool" where
  "py_startswith (JStr s) p = Inr (startswith s p)"
| "py_startswith _ p = Inl AttributeError"

text \<open>
  The replacement field of an f-string: a string is inserted as it is, any other value
  through Python's built-in \<^verbatim>\<open>str\<close>, which is not code of this repository and is a
  parameter \<open>str_of\<close> of the model.
\<close>

fun format_field :: "(json \<Rightarrow> string) \<Rightarrow> json \<Rightarrow> string" where
  "format_field str_of (JStr s) = s"
| "format_field str_of v = str_of v"

section \<open>The control registry\<close>

record control =
  ctl_title :: string
  ctl_description :: string
  policy_mappings :: "string list"

record framework_def =
  fw_name :: string
  fw_description :: string
  fw_controls :: "(string \<times> control) list"

text \<open>
  The table \<^verbatim>\<open>FRAMEWORK_CONTROLS\<close>, in its insertion order; the controls of a framework
  are the pairs of control id and control, in the order of the table.
\<close>

definition sox_framework :: framework_def where
  "sox_framework =
     \<lparr>fw_name = ''SOX (Sarbanes-Oxley Act)'',
      fw_description =
        ''Financial reporting integrity and internal controls'',
      fw_controls =
        [(''SOX-302'',
          \<lparr>ctl_title = ''Management Assessment of Internal Controls'',
           ctl_description =
             ''CEO/CFO certification of internal controls over financial reporting'',
           policy_mappings =
            [''aws.security.iam_mfa'',
             ''aws.compliance.sox'',
             ''azure.security.key_vault'']\<rparr>),
         (''SOX-404'',
          \<lparr>ctl_title = ''Internal Control Assessment'',
           ctl_description =
             ''Document and assess effectiveness of internal controls'',
           policy_mappings =
            [''aws.security.s3_encryption'',
             ''aws.compliance.sox'',
             ''azure.security.storage_encryption'']\<rparr>),
         (''SOX-ITGC'',
          \<lparr>ctl_title = ''IT General Controls'',
           ctl_description =
             ''IT controls supporting financial reporting systems'',
           policy_mappings =
            [''aws.security.kms_encryption'',
             ''aws.compliance.sox'',
             ''aws.tagging.required_tags'']\<rparr>)]\<rparr>"

definition pci_framework :: framework_def where
  "pci_framework =
     \<lparr>fw_name = ''PCI DSS'',
      fw_description =
        ''Payment Card Industry Data Security Standard'',
      fw_controls =
        [(''PCI-REQ-1'',
          \<lparr>ctl_title = ''Install and Maintain Firewall Configuration'',
           ctl_description =
             ''Protect cardholder data with firewall and router configuration'',
           policy_mappings =
            [''aws.security.ec2_security_groups'',
             ''azure.security.network_security'']\<rparr>),
         (''PCI-REQ-2'',
          \<lparr>ctl_title = ''Do Not Use Vendor-Supplied Defaults'',
           ctl_description =
             ''Change default passwords and security parameters'',
           policy_mappings =
            [''aws.compliance.pci_dss'']\<rparr>),
         (''PCI-REQ-3'',
          \<lparr>ctl_title = ''Protect Stored Cardholder Data'',
           ctl_description =
             ''Encrypt transmission of cardholder data'',
           policy_mappings =
            [''aws.security.s3_encryption'',
             ''aws.security.kms_encryption'',
             ''azure.security.storage_encryption'',
             ''aws.compliance.pci_dss'']\<rparr>),
         (''PCI-REQ-7'',
          \<lparr>ctl_title = ''Restrict Access by Business Need-to-Know'',
           ctl_description =
             ''Limit access to cardholder data by business need to know'',
           policy_mappings =
            [''aws.security.s3_public_access'',
             ''aws.security.iam_mfa'',
             ''aws.compliance.pci_dss'']\<rparr>),
         (''PCI-REQ-8'',
          \<lparr>ctl_title = ''Identify and Authenticate Access'',
           ctl_description =
             ''Assign unique ID to each person with computer access'',
           policy_mappings =
            [''aws.security.iam_mfa'',
             ''aws.compliance.pci_dss'']\<rparr>),
         (''PCI-REQ-10'',
          \<lparr>ctl_title = ''Track and Monitor Access'',
           ctl_description =
             ''Track and monitor all access to network resources and cardholder data'',
           policy_mappings =
            [''aws.compliance.pci_dss'',
             ''aws.compliance.sox'']\<rparr>)]\<rparr>"

definition ffiec_framework :: framework_def where
  "ffiec_framework =
     \<lparr>fw_name = ''FFIEC Cybersecurity Assessment'',
      fw_description =
        ''Federal Financial Institutions Examination Council - Cybersecurity maturity'',
      fw_controls =
        [(''FFIEC-D1'',
          \<lparr>ctl_title = ''Cyber Risk Management and Oversight'',
           ctl_description =
             ''Establish cybersecurity governance'',
           policy_mappings =
            [''aws.tagging.required_tags'',
             ''aws.compliance.ffiec'']\<rparr>),
         (''FFIEC-D2'',
          \<lparr>ctl_title = ''Threat Intelligence and Collaboration'',
           ctl_description =
             ''Monitor and respond to cyber threats'',
           policy_mappings =
            [''aws.compliance.ffiec'']\<rparr>),
         (''FFIEC-D3'',
          \<lparr>ctl_title = ''Cybersecurity Controls'',
           ctl_description =
             ''Implement preventative and detective controls'',
           policy_mappings =
            [''aws.security.s3_encryption'',
             ''aws.security.kms_encryption'',
             ''aws.security.ec2_security_groups'',
             ''azure.security.storage_encryption'',
             ''azure.security.network_security'',
             ''aws.compliance.ffiec'']\<rparr>),
         (''FFIEC-D4'',
          \<lparr>ctl_title = ''External Dependency Management'',
           ctl_description =
             ''Manage third-party and supply chain risks'',
           policy_mappings =
            [''aws.compliance.ffiec'']\<rparr>),
         (''FFIEC-D5'',
          \<lparr>ctl_title = ''Cyber Incident Management and Resilience'',
           ctl_description =
             ''Detect, respond, and recover from incidents'',
           policy_mappings =
            [''aws.compliance.ffiec'']\<rparr>)]\<rparr>"

definition glba_framework :: framework_def where
  "glba_framework =
     \<lparr>fw_name = ''GLBA'',
      fw_description =
        ''Gramm-Leach-Bliley Act - Financial privacy and consumer data protection (Updated for 2023 FTC Final Rule and 2024 Breach Notification Rule)'',
      fw_controls =
        [(''GLBA-SAFEGUARDS'',
          \<lparr>ctl_title = ''Safeguards Rule - Data Protection'',
           ctl_description =
             ''Administrative, technical, and physical safeguards to protect nonpublic personal information (NPI)'',
           policy_mappings =
            [''aws.compliance.glba'',
             ''aws.security.s3_encryption'',
             ''aws.security.kms_encryption'',
             ''azure.security.storage_encryption'']\<rparr>),
         (''GLBA-ACCESS'',
          \<lparr>ctl_title = ''Access Control - Limit NPI Access'',
           ctl_description =
             ''Limit access to customer information to authorized personnel only'',
           policy_mappings =
            [''aws.compliance.glba'',
             ''aws.security.s3_public_access'',
             ''aws.security.iam_mfa'',
             ''aws.security.ec2_security_groups'',
             ''azure.security.key_vault'',
             ''azure.security.network_security'']\<rparr>),
         (''GLBA-MONITORING'',
          \<lparr>ctl_title = ''Security Monitoring - Continuous Oversight'',
           ctl_description =
             ''Monitor systems, detect unauthorized access, and adapt to emerging threats'',
           policy_mappings =
            [''aws.compliance.glba'',
             ''aws.compliance.sox'',
             ''aws.compliance.ffiec'']\<rparr>),
         (''GLBA-VENDOR'',
          \<lparr>ctl_title = ''Third-Party Oversight - Cloud/Hybrid Security'',
           ctl_description =
             ''Ensure cloud service providers maintain adequate data protection controls'',
           policy_mappings =
            [''aws.compliance.glba'',
             ''aws.tagging.required_tags'']\<rparr>),
         (''GLBA-BREACH'',
          \<lparr>ctl_title = ''Breach Notification - 30-Day Requirement'',
           ctl_description =
             ''Report data breaches affecting 500+ customers within 30 days (2024 FTC Rule)'',
           policy_mappings =
            [''aws.compliance.glba'',
             ''aws.compliance.sox'']\<rparr>)]\<rparr>"

definition FRAMEWORK_CONTROLS :: "(string \<times> framework_def) list" where
  "FRAMEWORK_CONTROLS =
     [(''sox'', sox_framework),
      (''pci'', pci_framework),
      (''ffiec'', ffiec_framework),
      (''glba'', glba_framework)]"

section \<open>Evaluating one control\<close>

record control_result =
  control_id :: string
  title :: string
  description :: string
  status :: string
  score :: int
  findings :: "string list"
  evidence :: "string list"

text \<open>
  The inner loop of \<^verbatim>\<open>_evaluate_control\<close>: the first mapping the policy starts with
  ends the loop (\<^verbatim>\<open>break\<close>); a policy that is not a string raises at the first
  mapping tried.
\<close>

fun matches_any :: "json \<Rightarrow> string list \<Rightarrow> error + bool" where
  "matches_any policy [] = Inr False"
| "matches_any policy (m # ms) =
     (case py_startswith policy m of
        Inl e \<Rightarrow> Inl e
      | Inr b \<Rightarrow> if b then Inr True else matches_any policy ms)"

text \<open>
  The outer loop: \<open>mapped\<close> is the list \<^verbatim>\<open>mapped_violations\<close> built so far, each match
  appended at its end.
\<close>

fun map_violations :: "control \<Rightarrow> json list \<Rightarrow> json list \<Rightarrow> error + json list" where
  "map_violations c [] mapped = Inr mapped"
| "map_violations c (violation # rest) mapped =
     (case py_get violation ''policy'' (JStr '''') of
        Inl e \<Rightarrow> Inl e
      | Inr policy \<Rightarrow>
          (case matches_any policy (policy_mappings c) of
             Inl e \<Rightarrow> Inl e
           | Inr b \<Rightarrow> map_violations c rest (if b then mapped @ [violation] else mapped)))"

text \<open>One entry of \<^verbatim>\<open>findings\<close>: the f-string \<^verbatim>\<open>"{severity}: {message}"\<close>.\<close>

definition finding :: "(json \<Rightarrow> string) \<Rightarrow> json \<Rightarrow> error + string" where
  "finding str_of v =
     (case py_get v ''severity'' (JStr ''MEDIUM'') of
        Inl e \<Rightarrow> Inl e
      | Inr sev \<Rightarrow>
          (case py_get v ''message'' (JStr ''No message'') of
             Inl e \<Rightarrow> Inl e
           | Inr msg \<Rightarrow> Inr (format_field str_of sev @ '': '' @ format_field str_of msg)))"

fun findings_of :: "(json \<Rightarrow> string) \<Rightarrow> json list \<Rightarrow> error + string list" where
  "findings_of str_of [] = Inr []"
| "findings_of str_of (v # vs) =
     (case finding str_of v of
        Inl e \<Rightarrow> Inl e
      | Inr f \<Rightarrow>
          (case findings_of str_of vs of
             Inl e \<Rightarrow> Inl e
           | Inr fs \<Rightarrow> Inr (f # fs)))"

definition evaluate_control ::
  "(json \<Rightarrow> string) \<Rightarrow> string \<Rightarrow> control \<Rightarrow> json list \<Rightarrow> error + control_result" where
  "evaluate_control str_of cid c violations =
     (let result = \<lparr>control_id = cid, title = ctl_title c, description = ctl_description c,
                     status = ''PASS'', score = 100, findings = [], evidence = []\<rparr>
      in case map_violations c violations [] of
           Inl e \<Rightarrow> Inl e
         | Inr mapped_violations \<Rightarrow>
             if length mapped_violations = 0 then
               Inr (result\<lparr>status := ''PASS'', score := 100,
                      evidence := evidence result @ [''No policy violations found for this control'']\<rparr>)
             else if length mapped_violations \<le> 2 then
               (case findings_of str_of mapped_violations of
                  Inl e \<Rightarrow> Inl e
                | Inr fs \<Rightarrow> Inr (result\<lparr>status := ''PARTIAL'', score := 65, findings := fs\<rparr>))
             else
               (case findings_of str_of mapped_violations of
                  Inl e \<Rightarrow> Inl e
                | Inr fs \<Rightarrow> Inr (result\<lparr>status := ''FAIL'', score := 25, findings := fs\<rparr>)))"

section \<open>Evaluating a framework\<close>

record framework_results =
  framework :: string
  res_description :: string
  controls :: "control_result list"
  overall_score :: rat
  pass_count :: int
  partial_count :: int
  fail_count :: int

text \<open>
  The loop over \<^verbatim>\<open>framework["controls"].items()\<close>: the result of each control is
  appended and one counter is incremented; an exception of \<^verbatim>\<open>_evaluate_control\<close> ends
  the loop.
\<close>

fun evaluate_controls ::
  "(json \<Rightarrow> string) \<Rightarrow> (string \<times> control) list \<Rightarrow> json list \<Rightarrow> framework_results
     \<Rightarrow> error + framework_results" where
  "evaluate_controls str_of [] violations results = Inr results"
| "evaluate_controls str_of ((cid, c) # rest) violations results =
     (case evaluate_control str_of cid c violations of
        Inl e \<Rightarrow> Inl e
      | Inr control_result \<Rightarrow>
          (let results1 = results\<lparr>controls := controls results @ [control_result]\<rparr>;
               results2 =
                 (if status control_result = ''PASS'' then
                    results1\<lparr>pass_count := pass_count results1 + 1\<rparr>
                  else if status control_result = ''PARTIAL'' then
                    results1\<lparr>partial_count := partial_count results1 + 1\<rparr>
                  else
                    results1\<lparr>fail_count := fail_count results1 + 1\<rparr>)
           in evaluate_controls str_of rest violations results2))"

text \<open>
  \<^verbatim>\<open>round(x, 1)\<close>. Python divides and rounds on binary floating-point numbers; the
  model computes on rationals: the quotient is exact and is rounded to the nearest
  multiple of one tenth, a tie going to the even tenth, as Python rounds the exact
  value of its argument. The two agree unless the exact quotient lies half-way between
  two tenths and is not a binary fraction, where the floating-point quotient already
  lies on one side; \<open>mean_tie_free\<close> below shows that no such quotient arises for a
  framework of the table.
\<close>

definition round_half_even :: "rat \<Rightarrow> int" where
  "round_half_even x =
     (let f = \<lfloor>x\<rfloor>; d = x - of_int f
      in if d < 1 / 2 then f else if 1 / 2 < d then f + 1 else if even f then f else f + 1)"

definition py_round1 :: "rat \<Rightarrow> rat" where
  "py_round1 x = of_int (round_half_even (x * 10)) / 10"

text \<open>
  \<^verbatim>\<open>evaluate_framework\<close>; \<open>frameworks\<close> is \<^verbatim>\<open>self.frameworks\<close>. Every entry of the
  table is a non-empty dictionary, so \<^verbatim>\<open>not framework\<close> holds exactly when the name
  is missing.
\<close>

definition evaluate_framework ::
  "(json \<Rightarrow> string) \<Rightarrow> (string \<times> framework_def) list \<Rightarrow> string \<Rightarrow> json list
     \<Rightarrow> error + framework_results" where
  "evaluate_framework str_of frameworks framework_name violations =
     (case map_of frameworks framework_name of
        None \<Rightarrow> Inl (ValueError (''Unknown framework: '' @ framework_name))
      | Some fw \<Rightarrow>
          (case evaluate_controls str_of (fw_controls fw) violations
                  \<lparr>framework = fw_name fw, res_description = fw_description fw,
                   controls = [], overall_score = 0,
                   pass_count = 0, partial_count = 0, fail_count = 0\<rparr> of
             Inl e \<Rightarrow> Inl e
           | Inr results \<Rightarrow>
               (let total_controls = length (controls results)
                in if total_controls > 0 then
                     (let total_score = sum_list (map score (controls results))
                      in Inr (results\<lparr>overall_score :=
                                py_round1 (of_int total_score / of_nat total_controls)\<rparr>))
                   else Inr results)))"

section \<open>Loading violations\<close>

text \<open>\<^verbatim>\<open>for x in v\<close> and \<^verbatim>\<open>list(v)\<close>: a list gives its elements, a dictionary its keys,
  a string its characters; nothing else read from JSON can be iterated.\<close>

fun py_iter :: "json \<Rightarrow> error + json list" where
  "py_iter (JArr xs) = Inr xs"
| "py_iter (JObj kvs) = Inr (map (\<lambda>kv. JStr (fst kv)) kvs)"
| "py_iter (JStr s) = Inr (map (\<lambda>c. JStr [c]) s)"
| "py_iter _ = Inl TypeError"

fun is_dict :: "json \<Rightarrow> bool" where
  "is_dict (JObj kvs) = True"
| "is_dict _ = False"

text \<open>The conftest format: the loop over the failures of one result.\<close>

fun collect_failures :: "json list \<Rightarrow> json list \<Rightarrow> error + json list" where
  "collect_failures [] violations = Inr violations"
| "collect_failures (failure # rest) violations =
     (case py_get failure ''msg'' JNull of
        Inl e \<Rightarrow> Inl e
      | Inr msg \<Rightarrow>
          collect_failures rest (if is_dict msg then violations @ [msg] else violations))"

text \<open>The loop over \<^verbatim>\<open>data["results"]\<close>.\<close>

fun collect_results :: "json list \<Rightarrow> json list \<Rightarrow> error + json list" where
  "collect_results [] violations = Inr violations"
| "collect_results (result # rest) violations =
     (case py_get result ''failures'' (JArr []) of
        Inl e \<Rightarrow> Inl e
      | Inr fs \<Rightarrow>
          (case py_iter fs of
             Inl e \<Rightarrow> Inl e
           | Inr failures \<Rightarrow>
               (case collect_failures failures violations of
                  Inl e \<Rightarrow> Inl e
                | Inr violations' \<Rightarrow> collect_results rest violations')))"

text \<open>
  The body of the \<^verbatim>\<open>try\<close> of \<^verbatim>\<open>load_violations\<close> after \<^verbatim>\<open>json.load\<close>: what it returns,
  or the exception it raises.
\<close>

definition extract_violations :: "json \<Rightarrow> error + json" where
  "extract_violations data =
     (case data of
        JObj kvs \<Rightarrow>
          (case map_of kvs ''violations'' of
             Some v \<Rightarrow> Inr v
           | None \<Rightarrow>
               (case map_of kvs ''deny'' of
                  Some d \<Rightarrow>
                    (case py_iter d of Inl e \<Rightarrow> Inl e | Inr xs \<Rightarrow> Inr (JArr xs))
                | None \<Rightarrow>
                    (case map_of kvs ''results'' of
                       Some rs \<Rightarrow>
                         (case py_iter rs of
                            Inl e \<Rightarrow> Inl e
                          | Inr results \<Rightarrow>
                              (case collect_results results [] of
                                 Inl e \<Rightarrow> Inl e
                               | Inr violations \<Rightarrow> Inr (JArr violations)))
                     | None \<Rightarrow> Inr (JArr []))))
      | JArr xs \<Rightarrow> Inr data
      | _ \<Rightarrow> Inr (JArr []))"

text \<open>
  What opening the file and \<^verbatim>\<open>json.load\<close> give: an exception with its text (the file
  cannot be read, or its content is not JSON), or the value read.
\<close>

datatype loaded =
    OSError string
  | JSONDecodeError string
  | Loaded json

text \<open>
  \<^verbatim>\<open>load_violations\<close>: every exception of the \<^verbatim>\<open>try\<close> is caught, reported on the error
  stream and replaced by the empty list. The result is the lines written to the error
  stream and the value returned. The text of an exception raised by Python itself is
  the parameter \<open>exc_text\<close>.
\<close>

definition load_violations ::
  "(error \<Rightarrow> string) \<Rightarrow> string \<Rightarrow> loaded \<Rightarrow> string list \<times> json" where
  "load_violations exc_text file_path file =
     (case file of
        OSError msg \<Rightarrow>
          ([''Error loading violations from '' @ file_path @ '': '' @ msg], JArr [])
      | JSONDecodeError msg \<Rightarrow>
          ([''Error loading violations from '' @ file_path @ '': '' @ msg], JArr [])
      | Loaded data \<Rightarrow>
          (case extract_violations data of
             Inl e \<Rightarrow>
               ([''Error loading violations from '' @ file_path @ '': '' @ exc_text e], JArr [])
           | Inr v \<Rightarrow> ([], v)))"

section \<open>Python dictionaries with arbitrary keys\<close>

text \<open>
  The counting dictionaries of the report generators are keyed by values of the input.
  A dictionary is the list of its items in insertion order. A list or a dictionary is
  not hashable and raises \<^verbatim>\<open>TypeError\<close> when used as a key. Keys are compared with
  Python's \<^verbatim>\<open>==\<close>, under which \<^verbatim>\<open>True\<close> is \<^verbatim>\<open>1\<close> and \<^verbatim>\<open>False\<close> is \<^verbatim>\<open>0\<close>; storing under a
  key that is present keeps the key object stored first.
\<close>

type_synonym 'v pydict = "(json \<times> 'v) list"

fun hashable :: "json \<Rightarrow> bool" where
  "hashable (JArr xs) = False"
| "hashable (JObj kvs) = False"
| "hashable _ = True"

fun key_norm :: "json \<Rightarrow> json" where
  "key_norm (JBool b) = JInt (if b then 1 else 0)"
| "key_norm v = v"

fun dict_find :: "'v pydict \<Rightarrow> json \<Rightarrow> 'v option" where
  "dict_find [] k = None"
| "dict_find ((k', v) # d) k = (if key_norm k' = key_norm k then Some v else dict_find d k)"

fun dict_store :: "'v pydict \<Rightarrow> json \<Rightarrow> 'v \<Rightarrow> 'v pydict" where
  "dict_store [] k v = [(k, v)]"
| "dict_store ((k', v') # d) k v =
     (if key_norm k' = key_norm k then (k', v) # d else (k', v') # dict_store d k v)"

text \<open>\<^verbatim>\<open>d.get(k, default)\<close>, \<^verbatim>\<open>d[k] = v\<close> and \<^verbatim>\<open>k in d\<close>.\<close>

definition dict_get :: "'v pydict \<Rightarrow> json \<Rightarrow> 'v \<Rightarrow> error + 'v" where
  "dict_get d k dflt =
     (if hashable k then Inr (case dict_find d k of None \<Rightarrow> dflt | Some v \<Rightarrow> v)
      else Inl TypeError)"

definition dict_set :: "'v pydict \<Rightarrow> json \<Rightarrow> 'v \<Rightarrow> error + 'v pydict" where
  "dict_set d k v = (if hashable k then Inr (dict_store d k v) else Inl TypeError)"

definition dict_contains :: "'v pydict \<Rightarrow> json \<Rightarrow> error + bool" where
  "dict_contains d k = (if hashable k then Inr (dict_find d k \<noteq> None) else Inl TypeError)"

text \<open>\<^verbatim>\<open>d[k] = d.get(k, 0) + 1\<close>.\<close>

definition count_key :: "int pydict \<Rightarrow> json \<Rightarrow> error + int pydict" where
  "count_key d k =
     (case dict_get d k 0 of
        Inl e \<Rightarrow> Inl e
      | Inr n \<Rightarrow> dict_set d k (n + 1))"

text \<open>\<^verbatim>\<open>d[k].append(v)\<close>: a missing key raises \<^verbatim>\<open>KeyError\<close>.\<close>

definition dict_append :: "json list pydict \<Rightarrow> json \<Rightarrow> json \<Rightarrow> error + json list pydict" where
  "dict_append d k v =
     (if hashable k then
        (case dict_find d k of
           None \<Rightarrow> Inl KeyError
         | Some xs \<Rightarrow> Inr (dict_store d k (xs @ [v])))
      else Inl TypeError)"

text \<open>\<^verbatim>\<open>s.split(".")\<close>.\<close>

fun split_dot :: "string \<Rightarrow> string list" where
  "split_dot [] = [[]]"
| "split_dot (c # cs) =
     (if c = CHR ''.'' then [] # split_dot cs
      else (case split_dot cs of
              [] \<Rightarrow> [[c]]
            | p # ps \<Rightarrow> (c # p) # ps))"

section \<open>The summary of the HTML report\<close>

record html_summary =
  total_html :: int
  critical :: int
  high :: int
  medium :: int
  low :: int
  by_cloud :: "int pydict"
  by_category :: "int pydict"

text \<open>The three dictionaries the loop of \<^verbatim>\<open>_generate_summary\<close> updates.\<close>

record html_counts =
  severity_counts :: "int pydict"
  cloud_counts :: "int pydict"
  category_counts :: "int pydict"

text \<open>The category of a policy: its second segment, counted when it has more than two.\<close>

definition count_category :: "int pydict \<Rightarrow> string \<Rightarrow> error + int pydict" where
  "count_category cats policy =
     (let parts = split_dot policy
      in if length parts > 2 then count_key cats (JStr (parts ! 1)) else Inr cats)"

definition count_cloud ::
  "string \<Rightarrow> string \<Rightarrow> html_counts \<Rightarrow> error + html_counts" where
  "count_cloud cloud policy st =
     (case count_key (cloud_counts st) (JStr cloud) of
        Inl e \<Rightarrow> Inl e
      | Inr cc \<Rightarrow>
          (case count_category (category_counts st) policy of
             Inl e \<Rightarrow> Inl e
           | Inr cats \<Rightarrow> Inr (st\<lparr>cloud_counts := cc, category_counts := cats\<rparr>)))"

text \<open>One iteration of the loop.\<close>

definition html_count_violation :: "json \<Rightarrow> html_counts \<Rightarrow> error + html_counts" where
  "html_count_violation violation st =
     (case py_get violation ''severity'' (JStr ''UNKNOWN'') of
        Inl e \<Rightarrow> Inl e
      | Inr severity \<Rightarrow>
          (case count_key (severity_counts st) severity of
             Inl e \<Rightarrow> Inl e
           | Inr sc \<Rightarrow>
               (case py_get violation ''policy'' (JStr []) of
                  Inl e \<Rightarrow> Inl e
                | Inr (JStr policy) \<Rightarrow>
                    if startswith policy ''aws.'' then
                      count_cloud ''AWS'' policy (st\<lparr>severity_counts := sc\<rparr>)
                    else if startswith policy ''azure.'' then
                      count_cloud ''Azure'' policy (st\<lparr>severity_counts := sc\<rparr>)
                    else Inr (st\<lparr>severity_counts := sc\<rparr>)
                | Inr _ \<Rightarrow> Inl AttributeError)))"

fun html_count_all :: "json list \<Rightarrow> html_counts \<Rightarrow> error + html_counts" where
  "html_count_all [] st = Inr st"
| "html_count_all (violation # rest) st =
     (case html_count_violation violation st of
        Inl e \<Rightarrow> Inl e
      | Inr st' \<Rightarrow> html_count_all rest st')"

text \<open>The value of \<^verbatim>\<open>severity_counts.get(key, 0)\<close> for a string key.\<close>

definition count_of :: "int pydict \<Rightarrow> string \<Rightarrow> int" where
  "count_of d key = (case dict_find d (JStr key) of None \<Rightarrow> 0 | Some n \<Rightarrow> n)"

definition html_generate_summary :: "json list \<Rightarrow> error + html_summary" where
  "html_generate_summary violations =
     (if violations = [] then
        Inr \<lparr>total_html = 0, critical = 0, high = 0, medium = 0, low = 0,
             by_cloud = [], by_category = []\<rparr>
      else
        (case html_count_all violations
                \<lparr>severity_counts =
                   [(JStr ''CRITICAL'', 0), (JStr ''HIGH'', 0), (JStr ''MEDIUM'', 0), (JStr ''LOW'', 0)],
                 cloud_counts = [], category_counts = []\<rparr> of
           Inl e \<Rightarrow> Inl e
         | Inr st \<Rightarrow>
             Inr \<lparr>total_html = int (length violations),
                  critical = count_of (severity_counts st) ''CRITICAL'',
                  high = count_of (severity_counts st) ''HIGH'',
                  medium = count_of (severity_counts st) ''MEDIUM'',
                  low = count_of (severity_counts st) ''LOW'',
                  by_cloud = cloud_counts st,
                  by_category = category_counts st\<rparr>))"

section \<open>Grouping violations for the HTML report\<close>

text \<open>One iteration of the loop of \<^verbatim>\<open>_group_violations\<close>.\<close>

definition group_violation :: "json \<Rightarrow> json list pydict \<Rightarrow> error + json list pydict" where
  "group_violation violation grouped =
     (case py_get violation ''severity'' (JStr ''UNKNOWN'') of
        Inl e \<Rightarrow> Inl e
      | Inr severity \<Rightarrow>
          (case dict_contains grouped severity of
             Inl e \<Rightarrow> Inl e
           | Inr b \<Rightarrow>
               if b then dict_append grouped severity violation
               else dict_append grouped (JStr ''MEDIUM'') violation))"

fun group_all :: "json list \<Rightarrow> json list pydict \<Rightarrow> error + json list pydict" where
  "group_all [] grouped = Inr grouped"
| "group_all (violation # rest) grouped =
     (case group_violation violation grouped of
        Inl e \<Rightarrow> Inl e
      | Inr grouped' \<Rightarrow> group_all rest grouped')"

definition group_violations :: "json list \<Rightarrow> error + json list pydict" where
  "group_violations violations =
     group_all violations
       [(JStr ''CRITICAL'', []), (JStr ''HIGH'', []), (JStr ''MEDIUM'', []), (JStr ''LOW'', [])]"

section \<open>The summary of the JSON report\<close>

record json_summary =
  total_violations :: int
  by_severity :: "int pydict"
  by_policy :: "int pydict"
  by_cloud_json :: "int pydict"

record json_counts =
  sev_counts :: "int pydict"
  policy_counts :: "int pydict"
  cloud_counts_json :: "int pydict"

text \<open>One iteration of the loop of the JSON generator's \<^verbatim>\<open>_generate_summary\<close>.\<close>

definition json_count_cloud :: "json \<Rightarrow> int pydict \<Rightarrow> error + int pydict" where
  "json_count_cloud policy clouds =
     (case py_startswith policy ''aws.'' of
        Inl e \<Rightarrow> Inl e
      | Inr aws \<Rightarrow>
          if aws then count_key clouds (JStr ''AWS'')
          else
            (case py_startswith policy ''azure.'' of
               Inl e \<Rightarrow> Inl e
             | Inr azure \<Rightarrow>
                 if azure then count_key clouds (JStr ''Azure'') else Inr clouds))"

definition json_count_violation :: "json \<Rightarrow> json_counts \<Rightarrow> error + json_counts" where
  "json_count_violation violation st =
     (case py_get violation ''severity'' (JStr ''UNKNOWN'') of
        Inl e \<Rightarrow> Inl e
      | Inr severity \<Rightarrow>
          (case count_key (sev_counts st) severity of
             Inl e \<Rightarrow> Inl e
           | Inr sc \<Rightarrow>
               (case py_get violation ''policy'' (JStr ''unknown'') of
                  Inl e \<Rightarrow> Inl e
                | Inr policy \<Rightarrow>
                    (case count_key (policy_counts st) policy of
                       Inl e \<Rightarrow> Inl e
                     | Inr pc \<Rightarrow>
                         (case json_count_cloud policy (cloud_counts_json st) of
                            Inl e \<Rightarrow> Inl e
                          | Inr cc \<Rightarrow>
                              Inr \<lparr>sev_counts = sc, policy_counts = pc,
                                   cloud_counts_json = cc\<rparr>)))))"

fun json_count_all :: "json list \<Rightarrow> json_counts \<Rightarrow> error + json_counts" where
  "json_count_all [] st = Inr st"
| "json_count_all (violation # rest) st =
     (case json_count_violation violation st of
        Inl e \<Rightarrow> Inl e
      | Inr st' \<Rightarrow> json_count_all rest st')"

definition json_generate_summary :: "json list \<Rightarrow> error + json_summary" where
  "json_generate_summary violations =
     (if violations = [] then
        Inr \<lparr>total_violations = 0, by_severity = [], by_policy = [], by_cloud_json = []\<rparr>
      else
        (case json_count_all violations
                \<lparr>sev_counts = [], policy_counts = [], cloud_counts_json = []\<rparr> of
           Inl e \<Rightarrow> Inl e
         | Inr st \<Rightarrow>
             Inr \<lparr>total_violations = int (length violations),
                  by_severity = sev_counts st,
                  by_policy = policy_counts st,
                  by_cloud_json = cloud_counts_json st\<rparr>))"

section \<open>The two command-line programs\<close>

text \<open>
  What a run of a program leaves behind: the lines written to the error stream, the
  paths of the output files it wrote, in order, and its exit code. Standard output and
  the content of the files are not modelled. Writing a file and creating a directory
  are taken to succeed, and a path is joined to a directory with \<open>/\<close>. An exception
  nobody catches ends the process with exit code 1 after Python has written its text
  to the error stream.
\<close>

record outcome =
  errs :: "string list"
  files :: "string list"
  exit_code :: int

definition started :: outcome where
  "started = \<lparr>errs = [], files = [], exit_code = 0\<rparr>"

definition uncaught :: "(error \<Rightarrow> string) \<Rightarrow> error \<Rightarrow> outcome \<Rightarrow> outcome" where
  "uncaught exc_text e w = w\<lparr>errs := errs w @ [exc_text e], exit_code := 1\<rparr>"

definition finish :: "(error \<Rightarrow> string) \<Rightarrow> error option \<times> outcome \<Rightarrow> outcome" where
  "finish exc_text r = (case r of (None, w) \<Rightarrow> w | (Some e, w) \<Rightarrow> uncaught exc_text e w)"

subsection \<open>The compliance reporter\<close>

text \<open>
  \<^verbatim>\<open>generate_report\<close>: the violations are loaded, their number is printed
  (\<^verbatim>\<open>len\<close> raises on a value that cannot be iterated), the framework is evaluated over
  them and \<^verbatim>\<open>generate_html_report\<close> writes the report. \<open>file\<close> is what reading the input
  file gives.
\<close>

definition generate_report ::
  "(error \<Rightarrow> string) \<Rightarrow> (json \<Rightarrow> string) \<Rightarrow> (string \<times> framework_def) list \<Rightarrow> string \<Rightarrow> string
     \<Rightarrow> loaded \<Rightarrow> string \<Rightarrow> outcome \<Rightarrow> error option \<times> outcome" where
  "generate_report exc_text str_of frameworks framework_name input_file file output_path w =
     (case load_violations exc_text input_file file of
        (lines, loaded_value) \<Rightarrow>
          (let w1 = w\<lparr>errs := errs w @ lines\<rparr>
           in case py_iter loaded_value of
                Inl e \<Rightarrow> (Some e, w1)
              | Inr violations \<Rightarrow>
                  (case evaluate_framework str_of frameworks framework_name violations of
                     Inl e \<Rightarrow> (Some e, w1)
                   | Inr results \<Rightarrow> (None, w1\<lparr>files := files w1 @ [output_path]\<rparr>))))"

text \<open>The loop of \<^verbatim>\<open>main\<close> over the four frameworks; each call reads the input again.\<close>

fun generate_reports ::
  "(error \<Rightarrow> string) \<Rightarrow> (json \<Rightarrow> string) \<Rightarrow> string list \<Rightarrow> string \<Rightarrow> loaded \<Rightarrow> string
     \<Rightarrow> outcome \<Rightarrow> error option \<times> outcome" where
  "generate_reports exc_text str_of [] input_file file output_dir w = (None, w)"
| "generate_reports exc_text str_of (fw # rest) input_file file output_dir w =
     (case generate_report exc_text str_of FRAMEWORK_CONTROLS fw input_file file
             (output_dir @ ''/'' @ fw @ ''-compliance-report.html'') w of
        (Some e, w') \<Rightarrow> (Some e, w')
      | (None, w') \<Rightarrow> generate_reports exc_text str_of rest input_file file output_dir w')"

record args =
  arg_framework :: string
  arg_input :: string
  arg_output :: "string option"
  arg_output_dir :: "string option"

text \<open>
  \<^verbatim>\<open>main\<close> of the compliance reporter. \<^verbatim>\<open>argparse\<close> rejects a framework outside its
  choices with exit code 2 and a message of its own, abbreviated here. \<open>input_exists\<close>
  and \<open>file\<close> are the state of the file system at the input path.
\<close>

definition main ::
  "(error \<Rightarrow> string) \<Rightarrow> (json \<Rightarrow> string) \<Rightarrow> args \<Rightarrow> bool \<Rightarrow> loaded \<Rightarrow> outcome" where
  "main exc_text str_of a input_exists file =
     (if arg_framework a \<notin> set [''sox'', ''pci'', ''ffiec'', ''glba'', ''all''] then
        started\<lparr>errs := [''error: argument --framework: invalid choice''], exit_code := 2\<rparr>
      else if \<not> input_exists then
        started\<lparr>errs := [''Error: Input file not found: '' @ arg_input a], exit_code := 1\<rparr>
      else if arg_framework a = ''all'' then
        finish exc_text
          (generate_reports exc_text str_of [''sox'', ''pci'', ''ffiec'', ''glba''] (arg_input a) file
             (case arg_output_dir a of Some d \<Rightarrow> d | None \<Rightarrow> ''reports/compliance'') started)
      else
        finish exc_text
          (generate_report exc_text str_of FRAMEWORK_CONTROLS (arg_framework a) (arg_input a) file
             (case arg_output a of
                Some p \<Rightarrow> p
              | None \<Rightarrow> ''reports/'' @ arg_framework a @ ''-compliance-report.html'')
             started))"

subsection \<open>The \<^verbatim>\<open>generate\<close> command\<close>

text \<open>Several \<^verbatim>\<open>d.get(key, default)\<close> in a row on one value, the first exception ending them.\<close>

fun get_fields :: "json \<Rightarrow> (string \<times> json) list \<Rightarrow> error + json list" where
  "get_fields d [] = Inr []"
| "get_fields d ((k, dflt) # rest) =
     (case py_get d k dflt of
        Inl e \<Rightarrow> Inl e
      | Inr v \<Rightarrow>
          (case get_fields d rest of
             Inl e \<Rightarrow> Inl e
           | Inr vs \<Rightarrow> Inr (v # vs)))"

text \<open>
  The violation built from one failure: each field is
  \<^verbatim>\<open>failure.get("msg", {}).get(field, default)\<close>.
\<close>

fun msg_fields :: "json \<Rightarrow> (string \<times> json) list \<Rightarrow> error + (string \<times> json) list" where
  "msg_fields failure [] = Inr []"
| "msg_fields failure ((k, dflt) # rest) =
     (case py_get failure ''msg'' (JObj []) of
        Inl e \<Rightarrow> Inl e
      | Inr msg \<Rightarrow>
          (case py_get msg k dflt of
             Inl e \<Rightarrow> Inl e
           | Inr v \<Rightarrow>
               (case msg_fields failure rest of
                  Inl e \<Rightarrow> Inl e
                | Inr kvs \<Rightarrow> Inr ((k, v) # kvs))))"

definition failure_violation :: "json \<Rightarrow> error + json" where
  "failure_violation failure =
     (case msg_fields failure
             [(''policy'', JStr ''unknown''), (''resource'', JStr ''unknown''),
              (''severity'', JStr ''MEDIUM''), (''message'', JStr []),
              (''remediation'', JStr []), (''compliance'', JStr [])] of
        Inl e \<Rightarrow> Inl e
      | Inr kvs \<Rightarrow> Inr (JObj kvs))"

fun cli_failures :: "json list \<Rightarrow> json list \<Rightarrow> error + json list" where
  "cli_failures [] violations = Inr violations"
| "cli_failures (failure # rest) violations =
     (case failure_violation failure of
        Inl e \<Rightarrow> Inl e
      | Inr v \<Rightarrow> cli_failures rest (violations @ [v]))"

fun cli_results :: "json list \<Rightarrow> json list \<Rightarrow> error + json list" where
  "cli_results [] violations = Inr violations"
| "cli_results (result # rest) violations =
     (case py_get result ''failures'' (JArr []) of
        Inl e \<Rightarrow> Inl e
      | Inr fs \<Rightarrow>
          (case py_iter fs of
             Inl e \<Rightarrow> Inl e
           | Inr failures \<Rightarrow>
               (case cli_failures failures violations of
                  Inl e \<Rightarrow> Inl e
                | Inr violations' \<Rightarrow> cli_results rest violations')))"

definition cli_extract :: "json \<Rightarrow> error + json list" where
  "cli_extract data =
     (case data of
        JObj kvs \<Rightarrow>
          (case map_of kvs ''results'' of
             Some rs \<Rightarrow>
               (case py_iter rs of
                  Inl e \<Rightarrow> Inl e
                | Inr results \<Rightarrow> cli_results results [])
           | None \<Rightarrow>
               (case map_of kvs ''deny'' of
                  Some d \<Rightarrow> py_iter d
                | None \<Rightarrow> Inr []))
      | _ \<Rightarrow> Inr [])"

text \<open>
  The three generators. Each computes what it writes before it opens its file, except
  the CSV generator, which opens the file and then reads the fields of each violation.
  \<open>ts\<close> is the time stamp of the file names. Rendering the template is taken to succeed.
\<close>

definition html_generate :: "string \<Rightarrow> string \<Rightarrow> json list \<Rightarrow> outcome \<Rightarrow> error option \<times> outcome" where
  "html_generate ts output_dir violations w =
     (case html_generate_summary violations of
        Inl e \<Rightarrow> (Some e, w)
      | Inr summary \<Rightarrow>
          (case group_violations violations of
             Inl e \<Rightarrow> (Some e, w)
           | Inr grouped \<Rightarrow>
               (None, w\<lparr>files := files w @ [output_dir @ ''/policy-report-'' @ ts @ ''.html'']\<rparr>)))"

definition json_generate :: "string \<Rightarrow> string \<Rightarrow> json list \<Rightarrow> outcome \<Rightarrow> error option \<times> outcome" where
  "json_generate ts output_dir violations w =
     (case json_generate_summary violations of
        Inl e \<Rightarrow> (Some e, w)
      | Inr summary \<Rightarrow>
          (None, w\<lparr>files := files w @ [output_dir @ ''/policy-violations-'' @ ts @ ''.json'']\<rparr>))"

fun csv_rows :: "json list \<Rightarrow> error + json list list" where
  "csv_rows [] = Inr []"
| "csv_rows (violation # rest) =
     (case get_fields violation
             [(''policy'', JStr []), (''resource'', JStr []), (''severity'', JStr []),
              (''message'', JStr []), (''remediation'', JStr []), (''compliance'', JStr ''N/A'')] of
        Inl e \<Rightarrow> Inl e
      | Inr row \<Rightarrow>
          (case csv_rows rest of
             Inl e \<Rightarrow> Inl e
           | Inr rows \<Rightarrow> Inr (row # rows)))"

definition csv_generate :: "string \<Rightarrow> string \<Rightarrow> json list \<Rightarrow> outcome \<Rightarrow> error option \<times> outcome" where
  "csv_generate ts output_dir violations w =
     (let w1 = w\<lparr>files := files w @ [output_dir @ ''/policy-violations-'' @ ts @ ''.csv'']\<rparr>
      in if violations = [] then (None, w1)
         else (case csv_rows violations of
                 Inl e \<Rightarrow> (Some e, w1)
               | Inr rows \<Rightarrow> (None, w1)))"

text \<open>
  The closing console summary: the severities are counted and the items sorted, which
  raises \<^verbatim>\<open>TypeError\<close> when two keys cannot be ordered (only strings among themselves
  and numbers among themselves can).
\<close>

fun count_severities :: "json list \<Rightarrow> int pydict \<Rightarrow> error + int pydict" where
  "count_severities [] d = Inr d"
| "count_severities (v # vs) d =
     (case py_get v ''severity'' (JStr ''UNKNOWN'') of
        Inl e \<Rightarrow> Inl e
      | Inr severity \<Rightarrow>
          (case count_key d severity of
             Inl e \<Rightarrow> Inl e
           | Inr d' \<Rightarrow> count_severities vs d'))"

fun is_str :: "json \<Rightarrow> bool" where
  "is_str (JStr s) = True"
| "is_str _ = False"

fun is_num :: "json \<Rightarrow> bool" where
  "is_num (JInt i) = True"
| "is_num (JBool b) = True"
| "is_num _ = False"

definition sortable :: "json list \<Rightarrow> bool" where
  "sortable ks = (length ks \<le> 1 \<or> list_all is_str ks \<or> list_all is_num ks)"

definition console_summary :: "json list \<Rightarrow> outcome \<Rightarrow> error option \<times> outcome" where
  "console_summary violations w =
     (if violations = [] then (None, w)
      else (case count_severities violations [] of
              Inl e \<Rightarrow> (Some e, w)
            | Inr counts \<Rightarrow>
                if sortable (map fst counts) then (None, w) else (Some TypeError, w)))"

text \<open>Running a step when the format was asked for, and after an earlier step.\<close>

definition if_format ::
  "string \<Rightarrow> string list \<Rightarrow> (outcome \<Rightarrow> error option \<times> outcome) \<Rightarrow> outcome
     \<Rightarrow> error option \<times> outcome" where
  "if_format fmt formats step w = (if fmt \<in> set formats then step w else (None, w))"

definition and_then ::
  "error option \<times> outcome \<Rightarrow> (outcome \<Rightarrow> error option \<times> outcome) \<Rightarrow> error option \<times> outcome" where
  "and_then r step = (case r of (Some e, w) \<Rightarrow> (Some e, w) | (None, w) \<Rightarrow> step w)"

text \<open>
  \<^verbatim>\<open>generate\<close>: the input is read first; a file that cannot be read or is not JSON is
  reported and the process exits with code 1. \<^verbatim>\<open>click\<close> has checked before that the
  input path exists and that every format is one of html, json and csv.
\<close>

definition generate ::
  "(error \<Rightarrow> string) \<Rightarrow> string \<Rightarrow> loaded \<Rightarrow> string \<Rightarrow> string list \<Rightarrow> outcome" where
  "generate exc_text ts file output_dir formats =
     (case file of
        JSONDecodeError msg \<Rightarrow>
          started\<lparr>errs := [''Error: Invalid JSON in input file: '' @ msg], exit_code := 1\<rparr>
      | OSError msg \<Rightarrow>
          started\<lparr>errs := [''Error reading input file: '' @ msg], exit_code := 1\<rparr>
      | Loaded data \<Rightarrow>
          (case cli_extract data of
             Inl e \<Rightarrow> uncaught exc_text e started
           | Inr violations \<Rightarrow>
               finish exc_text
                 (and_then
                    (and_then
                       (and_then
                          (if_format ''html'' formats (html_generate ts output_dir violations) started)
                          (if_format ''json'' formats (json_generate ts output_dir violations)))
                       (if_format ''csv'' formats (csv_generate ts output_dir violations)))
                    (console_summary violations))))"

section \<open>The data model of the specification\<close>

text \<open>
  A violation of the specification is a mapping whose \<open>policy\<close>, when present, is a
  string. \<open>policy_field\<close> is that field, the empty string when it is missing.
\<close>

fun violation_record :: "json \<Rightarrow> bool" where
  "violation_record (JObj kvs) =
     (case map_of kvs ''policy'' of None \<Rightarrow> True | Some v \<Rightarrow> is_str v)"
| "violation_record _ = False"

fun policy_field :: "json \<Rightarrow> string" where
  "policy_field (JObj kvs) = (case map_of kvs ''policy'' of Some (JStr s) \<Rightarrow> s | _ \<Rightarrow> [])"
| "policy_field _ = []"

text \<open>The matching rule of the specification: some prefix of the control starts the policy.\<close>

definition matched :: "control \<Rightarrow> json \<Rightarrow> bool" where
  "matched c v = (\<exists>m \<in> set (policy_mappings c). prefix m (policy_field v))"

text \<open>
  The text of a field in a finding: the default when the field is missing, the field
  itself when it is a string.
\<close>

fun field_text :: "(json \<Rightarrow> string) \<Rightarrow> json \<Rightarrow> string \<Rightarrow> string \<Rightarrow> string" where
  "field_text str_of (JObj kvs) k dflt =
     (case map_of kvs k of None \<Rightarrow> dflt | Some x \<Rightarrow> format_field str_of x)"
| "field_text str_of _ k dflt = dflt"

definition finding_text :: "(json \<Rightarrow> string) \<Rightarrow> json \<Rightarrow> string" where
  "finding_text str_of v =
     field_text str_of v ''severity'' ''MEDIUM'' @ '': '' @ field_text str_of v ''message'' ''No message''"

text \<open>The arithmetic mean of the scores of a list of control results.\<close>

definition mean_score :: "control_result list \<Rightarrow> rat" where
  "mean_score crs = of_int (sum_list (map score crs)) / of_nat (length crs)"

text \<open>
  The severity the report generators read from a violation: the field, \<open>UNKNOWN\<close> when
  it is missing. A violation can be counted under its severity when it is a mapping
  and the severity can be a dictionary key.
\<close>

fun severity_of :: "json \<Rightarrow> json" where
  "severity_of (JObj kvs) =
     (case map_of kvs ''severity'' of None \<Rightarrow> JStr ''UNKNOWN'' | Some s \<Rightarrow> s)"
| "severity_of _ = JStr ''UNKNOWN''"

definition severity_record :: "json \<Rightarrow> bool" where
  "severity_record v = (is_dict v \<and> hashable (severity_of v))"

text \<open>The count a counting dictionary holds for a key, 0 when the key is absent.\<close>

definition tally :: "int pydict \<Rightarrow> json \<Rightarrow> int" where
  "tally d k = (case dict_find d k of None \<Rightarrow> 0 | Some n \<Rightarrow> n)"

section \<open>The normalizer in the words of the specification\<close>

text \<open>
  The dispatch as the specification states it: the value under \<open>violations\<close>, else the
  value under \<open>deny\<close>, else for each element of \<open>results\<close> and each entry of its
  \<open>failures\<close> array the \<open>msg\<close> when it is a mapping, else a list itself, else nothing.
\<close>

fun msg_mapping :: "json \<Rightarrow> json list" where
  "msg_mapping (JObj kvs) = (case map_of kvs ''msg'' of Some (JObj m) \<Rightarrow> [JObj m] | _ \<Rightarrow> [])"
| "msg_mapping _ = []"

fun failures_of :: "json \<Rightarrow> json list" where
  "failures_of (JObj kvs) = (case map_of kvs ''failures'' of Some (JArr fs) \<Rightarrow> fs | _ \<Rightarrow> [])"
| "failures_of _ = []"

fun elements :: "json \<Rightarrow> json list" where
  "elements (JArr xs) = xs"
| "elements _ = []"

definition result_msgs :: "json \<Rightarrow> json list" where
  "result_msgs result = concat (map msg_mapping (failures_of result))"

definition normalize_spec :: "json \<Rightarrow> json" where
  "normalize_spec data =
     (case data of
        JObj kvs \<Rightarrow>
          (case map_of kvs ''violations'' of
             Some v \<Rightarrow> v
           | None \<Rightarrow>
               (case map_of kvs ''deny'' of
                  Some d \<Rightarrow> d
                | None \<Rightarrow>
                    (case map_of kvs ''results'' of
                       Some rs \<Rightarrow> JArr (concat (map result_msgs (elements rs)))
                     | None \<Rightarrow> JArr [])))
      | JArr xs \<Rightarrow> data
      | _ \<Rightarrow> JArr [])"

section \<open>The normalizer as amended\<close>

text \<open>
  What iterating a value gives, for the values that can be iterated: the elements of a
  list, the keys of a mapping, the characters of a string.
\<close>

fun is_list :: "json \<Rightarrow> bool" where
  "is_list (JArr xs) = True"
| "is_list _ = False"

fun iterable :: "json \<Rightarrow> bool" where
  "iterable (JArr xs) = True"
| "iterable (JObj kvs) = True"
| "iterable (JStr s) = True"
| "iterable _ = False"

fun items :: "json \<Rightarrow> json list" where
  "items (JArr xs) = xs"
| "items (JObj kvs) = map (\<lambda>kv. JStr (fst kv)) kvs"
| "items (JStr s) = map (\<lambda>c. JStr [c]) s"
| "items _ = []"

text \<open>The value under \<open>failures\<close> of a result, the empty list when it is missing.\<close>

fun failures_value :: "json \<Rightarrow> json" where
  "failures_value (JObj kvs) = (case map_of kvs ''failures'' of None \<Rightarrow> JArr [] | Some f \<Rightarrow> f)"
| "failures_value _ = JArr []"

text \<open>
  A result can be read when it is a mapping, the value under \<open>failures\<close> can be
  iterated and every entry it gives is a mapping. An input can be normalized when the
  value the dispatch selects can be read: anything under \<open>violations\<close>; else a value
  under \<open>deny\<close> that can be iterated; else a value under \<open>results\<close> that can be iterated
  and gives only results that can be read.
\<close>

definition result_shaped :: "json \<Rightarrow> bool" where
  "result_shaped r =
     (is_dict r \<and> iterable (failures_value r) \<and> list_all is_dict (items (failures_value r)))"

definition input_shaped :: "json \<Rightarrow> bool" where
  "input_shaped data =
     (case data of
        JObj kvs \<Rightarrow>
          (case map_of kvs ''violations'' of
             Some v \<Rightarrow> True
           | None \<Rightarrow>
               (case map_of kvs ''deny'' of
                  Some d \<Rightarrow> iterable d
                | None \<Rightarrow>
                    (case map_of kvs ''results'' of
                       Some rs \<Rightarrow> iterable rs \<and> list_all result_shaped (items rs)
                     | None \<Rightarrow> True)))
      | _ \<Rightarrow> True)"

text \<open>
  What the normalizer returns for an input that can be normalized: the value under
  \<open>violations\<close>; else the list under \<open>deny\<close> itself, or the list of what iterating the
  value gives; else the \<open>msg\<close> mappings of the entries of the results; else the input
  when it is a list; else the empty list.
\<close>

definition shaped_msgs :: "json \<Rightarrow> json list" where
  "shaped_msgs r = concat (map msg_mapping (items (failures_value r)))"

definition normalize_amended :: "json \<Rightarrow> json" where
  "normalize_amended data =
     (case data of
        JObj kvs \<Rightarrow>
          (case map_of kvs ''violations'' of
             Some v \<Rightarrow> v
           | None \<Rightarrow>
               (case map_of kvs ''deny'' of
                  Some d \<Rightarrow> if is_list d then d else JArr (items d)
                | None \<Rightarrow>
                    (case map_of kvs ''results'' of
                       Some rs \<Rightarrow> JArr (concat (map shaped_msgs (items rs)))
                     | None \<Rightarrow> JArr [])))
      | JArr xs \<Rightarrow> data
      | _ \<Rightarrow> JArr [])"

section \<open>Sample data\<close>

text \<open>
  Stand-ins, used in the examples only, for the two texts Python produces itself: the
  rendering of a value that is not a string and the text of an exception.
\<close>

definition plain_str :: "json \<Rightarrow> string" where
  "plain_str v = ''<value>''"

fun exc_name :: "error \<Rightarrow> string" where
  "exc_name AttributeError = ''AttributeError''"
| "exc_name TypeError = ''TypeError''"
| "exc_name KeyError = ''KeyError''"
| "exc_name (ValueError msg) = ''ValueError: '' @ msg"

definition s3_violation :: json where
  "s3_violation = JObj [(''policy'', JStr ''aws.security.s3_encryption'')]"

definition sox_violation :: json where
  "sox_violation =
     JObj [(''policy'', JStr ''aws.compliance.sox.audit''), (''severity'', JStr ''HIGH''),
           (''message'', JStr ''Audit trail disabled'')]"

definition upper_violation :: json where
  "upper_violation = JObj [(''policy'', JStr ''AWS.compliance.sox'')]"

definition sox_404 :: control where
  "sox_404 =
     \<lparr>ctl_title = ''Internal Control Assessment'',
      ctl_description = ''Document and assess effectiveness of internal controls'',
      policy_mappings =
        [''aws.security.s3_encryption'', ''aws.compliance.sox'',
         ''azure.security.storage_encryption'']\<rparr>"

definition no_controls :: "(string \<times> framework_def) list" where
  "no_controls =
     [(''none'', \<lparr>fw_name = ''None'', fw_description = ''A framework without controls'',
                  fw_controls = []\<rparr>)]"

definition info_violation :: json where
  "info_violation =
     JObj [(''policy'', JStr ''aws.security.iam_mfa''), (''severity'', JStr ''INFO'')]"

definition high_violation :: json where
  "high_violation =
     JObj [(''policy'', JStr ''azure.security.key_vault''), (''severity'', JStr ''HIGH'')]"

definition no_severity :: json where
  "no_severity = JObj [(''policy'', JStr ''aws.tagging.required_tags'')]"

definition info_summary :: html_summary where
  "info_summary =
     \<lparr>total_html = 1, critical = 0, high = 0, medium = 0, low = 0,
      by_cloud = [(JStr ''AWS'', 1)], by_category = [(JStr ''security'', 1)]\<rparr>"

definition conftest_output :: json where
  "conftest_output =
     JObj [(''results'',
            JArr [JObj [(''filename'', JStr ''plan.json''),
                        (''failures'',
                         JArr [JObj [(''msg'', s3_violation)],
                               JObj [(''msg'', JStr ''bucket is public'')]])]])]"

definition malformed_results :: json where
  "malformed_results =
     JObj [(''results'',
            JArr [JObj [(''failures'',
                         JArr [JObj [(''msg'', s3_violation)], JStr ''bucket is public''])]])]"

definition sox_args :: args where
  "sox_args =
     \<lparr>arg_framework = ''sox'', arg_input = ''violations.json'', arg_output = None,
      arg_output_dir = None\<rparr>"

definition numeric_policy :: json where
  "numeric_policy = JObj [(''policy'', JInt 5)]"

definition list_severity :: json where
  "list_severity = JObj [(''policy'', JStr ''aws.security.iam_mfa''), (''severity'', JArr [])]"

definition deny_string :: json where
  "deny_string = JObj [(''deny'', JStr ''abc'')]"

definition deny_number :: json where
  "deny_number = JObj [(''deny'', JInt 5)]"

definition true_severity :: json where
  "true_severity = JObj [(''severity'', JBool True)]"

definition one_severity :: json where
  "one_severity = JObj [(''severity'', JInt 1)]"

section \<open>Auxiliary facts\<close>

subsection \<open>Matching and findings\<close>

lemma startswith_prefix: "startswith s p = prefix p s"
  by (induction s p rule: startswith.induct) auto

lemma matches_any_str: "matches_any (JStr s) ms = Inr (\<exists>m \<in> set ms. prefix m s)"
  by (induction ms) (auto simp: startswith_prefix)

lemma is_str_iff: "is_str v \<longleftrightarrow> (\<exists>s. v = JStr s)"
  by (cases v) auto

lemma policy_get:
  "violation_record v \<Longrightarrow> py_get v ''policy'' (JStr []) = Inr (JStr (policy_field v))"
  by (cases v) (auto simp: is_str_iff split: option.splits)

lemma map_violations_filter:
  "list_all violation_record vs \<Longrightarrow>
   map_violations c vs acc = Inr (acc @ filter (matched c) vs)"
proof (induction vs arbitrary: acc)
  case Nil
  then show ?case by simp
next
  case (Cons v vs)
  then show ?case
    by (simp add: policy_get matches_any_str matched_def)
qed

lemma violation_record_dict: "violation_record v \<Longrightarrow> \<exists>kvs. v = JObj kvs"
  by (cases v) auto

lemma finding_dict: "finding str_of (JObj kvs) = Inr (finding_text str_of (JObj kvs))"
  by (simp add: finding_def finding_text_def split: option.splits)

lemma findings_of_map:
  "list_all violation_record vs \<Longrightarrow> findings_of str_of vs = Inr (map (finding_text str_of) vs)"
proof (induction vs)
  case Nil
  then show ?case by simp
next
  case (Cons v vs)
  from Cons.prems obtain kvs where "v = JObj kvs"
    using violation_record_dict by auto
  with Cons show ?case by (simp add: finding_dict)
qed

lemma list_all_filter: "list_all P xs \<Longrightarrow> list_all P (filter Q xs)"
  by (induction xs) auto

lemma evaluate_control_eq:
  assumes "list_all violation_record violations"
  shows "evaluate_control str_of cid c violations =
     Inr (let mapped = filter (matched c) violations
          in if length mapped = 0 then
               \<lparr>control_id = cid, title = ctl_title c, description = ctl_description c,
                status = ''PASS'', score = 100, findings = [],
                evidence = [''No policy violations found for this control'']\<rparr>
             else if length mapped \<le> 2 then
               \<lparr>control_id = cid, title = ctl_title c, description = ctl_description c,
                status = ''PARTIAL'', score = 65, findings = map (finding_text str_of) mapped,
                evidence = []\<rparr>
             else
               \<lparr>control_id = cid, title = ctl_title c, description = ctl_description c,
                status = ''FAIL'', score = 25, findings = map (finding_text str_of) mapped,
                evidence = []\<rparr>)"
  using assms
  by (simp add: evaluate_control_def map_violations_filter [where acc = "[]", simplified]
      findings_of_map list_all_filter Let_def)

subsection \<open>The loop over the controls\<close>

lemma evaluate_control_total:
  "list_all violation_record vs \<Longrightarrow> \<exists>r. evaluate_control str_of cid c vs = Inr r"
  by (simp add: evaluate_control_eq)

lemma evaluate_control_score:
  "list_all violation_record vs \<Longrightarrow> evaluate_control str_of cid c vs = Inr r \<Longrightarrow>
   score r \<in> {100, 65, 25}"
  by (auto simp: evaluate_control_eq Let_def split: if_splits)

lemma evaluate_controls_ok:
  assumes "list_all violation_record vs"
  shows "\<exists>r crs. evaluate_controls str_of cs vs res = Inr r \<and>
      controls r = controls res @ crs \<and>
      list_all2 (\<lambda>p cr. evaluate_control str_of (fst p) (snd p) vs = Inr cr) cs crs \<and>
      pass_count r = pass_count res + int (length (filter (\<lambda>cr. status cr = ''PASS'') crs)) \<and>
      partial_count r =
        partial_count res + int (length (filter (\<lambda>cr. status cr = ''PARTIAL'') crs)) \<and>
      fail_count r =
        fail_count res +
        int (length (filter (\<lambda>cr. status cr \<noteq> ''PASS'' \<and> status cr \<noteq> ''PARTIAL'') crs)) \<and>
      framework r = framework res \<and> res_description r = res_description res \<and>
      overall_score r = overall_score res"
proof (induction cs arbitrary: res)
  case Nil
  show ?case by simp
next
  case (Cons p cs)
  obtain cid c where p: "p = (cid, c)" by (cases p)
  obtain cr where cr: "evaluate_control str_of cid c vs = Inr cr"
    using evaluate_control_total [OF assms] by blast
  define res1 where "res1 = res\<lparr>controls := controls res @ [cr]\<rparr>"
  define res2 where "res2 =
    (if status cr = ''PASS'' then res1\<lparr>pass_count := pass_count res1 + 1\<rparr>
     else if status cr = ''PARTIAL'' then res1\<lparr>partial_count := partial_count res1 + 1\<rparr>
     else res1\<lparr>fail_count := fail_count res1 + 1\<rparr>)"
  have step: "evaluate_controls str_of (p # cs) vs res = evaluate_controls str_of cs vs res2"
    by (simp add: p cr res1_def res2_def Let_def)
  obtain r crs where r: "evaluate_controls str_of cs vs res2 = Inr r"
    and crs: "controls r = controls res2 @ crs"
    and all: "list_all2 (\<lambda>p cr. evaluate_control str_of (fst p) (snd p) vs = Inr cr) cs crs"
    and pc: "pass_count r = pass_count res2 + int (length (filter (\<lambda>cr. status cr = ''PASS'') crs))"
    and qc: "partial_count r =
        partial_count res2 + int (length (filter (\<lambda>cr. status cr = ''PARTIAL'') crs))"
    and fc: "fail_count r =
        fail_count res2 +
        int (length (filter (\<lambda>cr. status cr \<noteq> ''PASS'' \<and> status cr \<noteq> ''PARTIAL'') crs))"
    and rest: "framework r = framework res2" "res_description r = res_description res2"
      "overall_score r = overall_score res2"
    using Cons.IH [of res2] by blast
  have "controls r = controls res @ (cr # crs)"
    using crs by (simp add: res2_def res1_def)
  moreover have "list_all2 (\<lambda>p cr. evaluate_control str_of (fst p) (snd p) vs = Inr cr)
      (p # cs) (cr # crs)"
    using all cr p by simp
  moreover have "pass_count r =
      pass_count res + int (length (filter (\<lambda>cr. status cr = ''PASS'') (cr # crs)))"
    using pc by (simp add: res2_def res1_def)
  moreover have "partial_count r =
      partial_count res + int (length (filter (\<lambda>cr. status cr = ''PARTIAL'') (cr # crs)))"
    using qc by (simp add: res2_def res1_def)
  moreover have "fail_count r =
      fail_count res +
      int (length (filter (\<lambda>cr. status cr \<noteq> ''PASS'' \<and> status cr \<noteq> ''PARTIAL'') (cr # crs)))"
    using fc by (simp add: res2_def res1_def)
  moreover have "framework r = framework res" "res_description r = res_description res"
      "overall_score r = overall_score res"
    using rest by (simp_all add: res2_def res1_def)
  ultimately show ?case
    using step r
    by - (rule exI [of _ r], rule exI [of _ "cr # crs"], simp)
qed

lemma three_way_count:
  "length (filter (\<lambda>x. f x = a) xs) + length (filter (\<lambda>x. f x = b) xs) +
     length (filter (\<lambda>x. f x \<noteq> a \<and> f x \<noteq> b) xs) = length xs" if "a \<noteq> b"
  using that by (induction xs) auto

lemma evaluate_framework_ok:
  assumes "map_of frameworks name = Some fw" and "list_all violation_record vs"
  shows "\<exists>r. evaluate_framework str_of frameworks name vs = Inr r \<and>
      list_all2 (\<lambda>p cr. evaluate_control str_of (fst p) (snd p) vs = Inr cr)
        (fw_controls fw) (controls r) \<and>
      pass_count r = int (length (filter (\<lambda>cr. status cr = ''PASS'') (controls r))) \<and>
      partial_count r = int (length (filter (\<lambda>cr. status cr = ''PARTIAL'') (controls r))) \<and>
      fail_count r =
        int (length (filter (\<lambda>cr. status cr \<noteq> ''PASS'' \<and> status cr \<noteq> ''PARTIAL'')
               (controls r))) \<and>
      framework r = fw_name fw \<and> res_description r = fw_description fw \<and>
      overall_score r = (if controls r = [] then 0 else py_round1 (mean_score (controls r)))"
proof -
  define res0 where "res0 = \<lparr>framework = fw_name fw, res_description = fw_description fw,
     controls = [], overall_score = 0, pass_count = 0, partial_count = 0, fail_count = 0\<rparr>"
  obtain r crs where r: "evaluate_controls str_of (fw_controls fw) vs res0 = Inr r"
    and crs: "controls r = controls res0 @ crs"
    and all: "list_all2 (\<lambda>p cr. evaluate_control str_of (fst p) (snd p) vs = Inr cr)
        (fw_controls fw) crs"
    and pc: "pass_count r = pass_count res0 + int (length (filter (\<lambda>cr. status cr = ''PASS'') crs))"
    and qc: "partial_count r =
        partial_count res0 + int (length (filter (\<lambda>cr. status cr = ''PARTIAL'') crs))"
    and fc: "fail_count r =
        fail_count res0 +
        int (length (filter (\<lambda>cr. status cr \<noteq> ''PASS'' \<and> status cr \<noteq> ''PARTIAL'') crs))"
    and rest: "framework r = framework res0" "res_description r = res_description res0"
      "overall_score r = overall_score res0"
    using evaluate_controls_ok [OF assms(2), of str_of "fw_controls fw" res0] by blast
  have c: "controls r = crs" using crs by (simp add: res0_def)
  define r' where "r' = (if controls r = [] then r
     else r\<lparr>overall_score := py_round1 (mean_score (controls r))\<rparr>)"
  have "evaluate_framework str_of frameworks name vs = Inr r'"
    using assms(1) r
    by (simp add: evaluate_framework_def res0_def [symmetric] r'_def Let_def mean_score_def)
  moreover have "controls r' = crs" by (simp add: r'_def c)
  moreover have "pass_count r' = pass_count r" "partial_count r' = partial_count r"
    "fail_count r' = fail_count r" "framework r' = framework r"
    "res_description r' = res_description r"
    by (simp_all add: r'_def)
  moreover have "overall_score r' = (if crs = [] then 0 else py_round1 (mean_score crs))"
    using rest(3) by (simp add: r'_def c res0_def)
  ultimately show ?thesis
    using all pc qc fc rest(1,2) by (simp add: res0_def)
qed

lemma floor_frac_bounds: "0 \<le> x - of_int \<lfloor>x\<rfloor> \<and> x - of_int \<lfloor>x\<rfloor> < (1::rat)"
  by linarith

lemma round_half_even_near:
  "\<bar>of_int (round_half_even x) - x\<bar> \<le> 1 / 2"
  using floor_frac_bounds [of x]
  by (auto simp: round_half_even_def Let_def)

lemma round_half_even_mono_bounds:
  "of_int a \<le> x \<Longrightarrow> x \<le> of_int b \<Longrightarrow> a \<le> round_half_even x \<and> round_half_even x \<le> b"
proof -
  assume a: "of_int a \<le> x" and b: "x \<le> of_int b"
  have fa: "a \<le> \<lfloor>x\<rfloor>" using a by (simp add: le_floor_iff)
  have fb: "\<lfloor>x\<rfloor> \<le> b" using b by (simp add: floor_le_iff)
  show ?thesis
  proof (cases "\<lfloor>x\<rfloor> = b")
    case True
    then have "x - of_int \<lfloor>x\<rfloor> \<le> 0" using b by simp
    then show ?thesis using fa True by (simp add: round_half_even_def Let_def)
  next
    case False
    then have "\<lfloor>x\<rfloor> + 1 \<le> b" using fb by simp
    then show ?thesis using fa by (auto simp: round_half_even_def Let_def)
  qed
qed

lemma py_round1_near: "\<bar>py_round1 x - x\<bar> \<le> 1 / 20"
  using round_half_even_near [of "x * 10"]
  by (simp add: py_round1_def field_simps abs_le_iff)

lemma py_round1_bounds: "0 \<le> x \<Longrightarrow> x \<le> 100 \<Longrightarrow> 0 \<le> py_round1 x \<and> py_round1 x \<le> 100"
  using round_half_even_mono_bounds [of 0 "x * 10" 1000]
  by (simp add: py_round1_def field_simps)

lemma scores_bounds:
  assumes "list_all2 (\<lambda>p cr. evaluate_control str_of (fst p) (snd p) vs = Inr cr) cs crs"
    and "list_all violation_record vs"
  shows "25 * int (length crs) \<le> sum_list (map score crs) \<and>
         sum_list (map score crs) \<le> 100 * int (length crs)"
  using assms(1)
proof (induction cs crs rule: list_all2_induct)
  case Nil
  show ?case by simp
next
  case (Cons p cs cr crs)
  have "score cr \<in> {100, 65, 25}"
    using Cons.hyps(1) assms(2) evaluate_control_score by blast
  then show ?case using Cons.IH by auto
qed

lemma mean_score_bounds:
  assumes "25 * int (length crs) \<le> sum_list (map score crs)"
    and "sum_list (map score crs) \<le> 100 * int (length crs)" and "crs \<noteq> []"
  shows "25 \<le> mean_score crs \<and> mean_score crs \<le> 100"
proof -
  have n: "(0::rat) < of_nat (length crs)" using assms(3) by simp
  have "(of_int (25 * int (length crs)) :: rat) \<le> of_int (sum_list (map score crs))"
    using assms(1) by (simp only: of_int_le_iff)
  then have lo: "25 * of_nat (length crs) \<le> (of_int (sum_list (map score crs)) :: rat)"
    by simp
  have "(of_int (sum_list (map score crs)) :: rat) \<le> of_int (100 * int (length crs))"
    using assms(2) by (simp only: of_int_le_iff)
  then have hi: "(of_int (sum_list (map score crs)) :: rat) \<le> 100 * of_nat (length crs)"
    by simp
  show ?thesis
    using lo hi n by (simp add: mean_score_def pos_le_divide_eq pos_divide_le_eq)
qed

subsection \<open>The table and the rounding\<close>

lemma registry_lookup:
  "map_of FRAMEWORK_CONTROLS name = Some fw \<Longrightarrow>
   fw \<in> {sox_framework, pci_framework, ffiec_framework, glba_framework}"
  by (auto simp: FRAMEWORK_CONTROLS_def split: if_splits)

lemma registry_sizes:
  "length (fw_controls sox_framework) = 3" "length (fw_controls pci_framework) = 6"
  "length (fw_controls ffiec_framework) = 5" "length (fw_controls glba_framework) = 5"
  by (simp_all add: sox_framework_def pci_framework_def ffiec_framework_def glba_framework_def)

lemma registry_size:
  "map_of FRAMEWORK_CONTROLS name = Some fw \<Longrightarrow> length (fw_controls fw) \<in> {3, 5, 6}"
  using registry_lookup [of name fw] registry_sizes by auto

lemma no_tie:
  fixes t f :: int
  assumes "n \<in> {3, 5, 6}"
  shows "of_int t * 10 / of_nat n - of_int f \<noteq> (1 / 2 :: rat)"
proof
  assume h: "of_int t * 10 / of_nat n - of_int f = (1 / 2 :: rat)"
  have n0: "(of_nat n :: rat) \<noteq> 0" using assms by auto
  from h have "of_int t * 10 = (of_int f + 1 / 2) * (of_nat n :: rat)"
    using n0 by (simp add: field_simps)
  then have "(of_int (t * 20) :: rat) = of_int ((2 * f + 1) * int n)"
    by (simp add: field_simps)
  then have "t * 20 = (2 * f + 1) * int n"
    by (simp only: of_int_eq_iff)
  then show False
    using assms by (elim insertE emptyE; simp; presburger)
qed

lemma round_half_even_strict:
  "x - of_int \<lfloor>x\<rfloor> \<noteq> 1 / 2 \<Longrightarrow> \<bar>of_int (round_half_even x) - x\<bar> < 1 / 2"
  using floor_frac_bounds [of x]
  by (auto simp: round_half_even_def Let_def)

lemma mean_tie_free:
  assumes "map_of FRAMEWORK_CONTROLS name = Some fw"
    and "length crs = length (fw_controls fw)"
  shows "\<bar>py_round1 (mean_score crs) - mean_score crs\<bar> < 1 / 20"
proof -
  have n: "length crs \<in> {3, 5, 6}"
    using registry_size [OF assms(1)] assms(2) by simp
  have "mean_score crs * 10 - of_int \<lfloor>mean_score crs * 10\<rfloor> \<noteq> 1 / 2"
    using no_tie [OF n, of "sum_list (map score crs)" "\<lfloor>mean_score crs * 10\<rfloor>"]
    by (simp add: mean_score_def)
  from round_half_even_strict [OF this] show ?thesis
    by (simp add: py_round1_def field_simps abs_less_iff)
qed

subsection \<open>Counting dictionaries and grouping\<close>

lemma key_norm_str [simp]:
  "key_norm s = JStr x \<longleftrightarrow> s = JStr x" "JStr x = key_norm s \<longleftrightarrow> s = JStr x"
  by (cases s; auto)+

lemma dict_find_store:
  "dict_find (dict_store d k v) k' =
     (if key_norm k = key_norm k' then Some v else dict_find d k')"
  by (induction d) auto

lemma sum_store:
  "sum_list (map snd (dict_store d k v)) = sum_list (map snd d) - tally d k + v"
  by (induction d) (auto simp: tally_def)

lemma count_key_ok:
  "hashable k \<Longrightarrow> count_key d k = Inr (dict_store d k (tally d k + 1))"
  by (simp add: count_key_def dict_get_def dict_set_def tally_def)

lemma dict_find_norm:
  "key_norm k = key_norm k' \<Longrightarrow> dict_find d k = dict_find d k'"
  by (induction d) auto

lemma tally_count:
  "tally (dict_store d k (tally d k + 1)) k' =
     tally d k' + (if key_norm k = key_norm k' then 1 else 0)"
  using dict_find_norm [of k k' d]
  by (simp add: tally_def dict_find_store)

lemma dict_store_keys: "fst ` set (dict_store d k v) \<subseteq> insert k (fst ` set d)"
  by (induction d) (force split: if_splits)+

lemma sum_count:
  "sum_list (map snd (dict_store d k (tally d k + 1))) = sum_list (map snd d) + 1"
  by (simp add: sum_store)

lemma severity_get:
  "py_get (JObj kvs) ''severity'' (JStr ''UNKNOWN'') = Inr (severity_of (JObj kvs))"
  by (simp split: option.splits)

lemma group_step:
  assumes "severity_record v"
  shows "group_violation v
           [(JStr ''CRITICAL'', a), (JStr ''HIGH'', b), (JStr ''MEDIUM'', c), (JStr ''LOW'', d)] =
         Inr [(JStr ''CRITICAL'', if severity_of v = JStr ''CRITICAL'' then a @ [v] else a),
              (JStr ''HIGH'', if severity_of v = JStr ''HIGH'' then b @ [v] else b),
              (JStr ''MEDIUM'',
               if severity_of v \<notin> {JStr ''CRITICAL'', JStr ''HIGH'', JStr ''LOW''}
               then c @ [v] else c),
              (JStr ''LOW'', if severity_of v = JStr ''LOW'' then d @ [v] else d)]"
proof -
  from assms obtain kvs where v: "v = JObj kvs"
    by (cases v) (auto simp: severity_record_def)
  have h: "hashable (severity_of (JObj kvs))"
    using assms by (simp add: severity_record_def v)
  show ?thesis
    unfolding v group_violation_def severity_get
    using h by (auto simp: dict_contains_def dict_append_def)
qed

lemma group_all_filter:
  assumes "list_all severity_record vs"
  shows "group_all vs
           [(JStr ''CRITICAL'', a), (JStr ''HIGH'', b), (JStr ''MEDIUM'', c), (JStr ''LOW'', d)] =
         Inr [(JStr ''CRITICAL'', a @ filter (\<lambda>v. severity_of v = JStr ''CRITICAL'') vs),
              (JStr ''HIGH'', b @ filter (\<lambda>v. severity_of v = JStr ''HIGH'') vs),
              (JStr ''MEDIUM'',
               c @ filter (\<lambda>v. severity_of v \<notin> {JStr ''CRITICAL'', JStr ''HIGH'', JStr ''LOW''}) vs),
              (JStr ''LOW'', d @ filter (\<lambda>v. severity_of v = JStr ''LOW'') vs)]"
  using assms
proof (induction vs arbitrary: a b c d)
  case Nil
  show ?case by simp
next
  case (Cons v vs)
  then have v: "severity_record v" and vs: "list_all severity_record vs"
    by simp_all
  show ?case
    by (simp only: group_all.simps group_step [OF v] sum.case Cons.IH [OF vs])
       (simp del: group_all.simps)
qed

lemma four_way_count:
  assumes "distinct [a, b, c]"
  shows "length (filter (\<lambda>x. f x = a) xs) + length (filter (\<lambda>x. f x = b) xs) +
         length (filter (\<lambda>x. f x \<notin> {a, b, c}) xs) + length (filter (\<lambda>x. f x = c) xs) =
         length xs"
  using assms by (induction xs) auto

subsection \<open>The counting loops of the summaries\<close>

lemma count_cloud_ok:
  "\<exists>st'. count_cloud cloud policy st = Inr st' \<and> severity_counts st' = severity_counts st"
  by (simp add: count_cloud_def count_category_def count_key_ok Let_def)

lemma html_step:
  assumes "violation_record v" and "severity_record v"
  shows "\<exists>st'. html_count_violation v st = Inr st' \<and>
           severity_counts st' =
             dict_store (severity_counts st) (severity_of v)
               (tally (severity_counts st) (severity_of v) + 1)"
proof -
  from assms(1) obtain kvs where v: "v = JObj kvs"
    using violation_record_dict by blast
  have h: "hashable (severity_of (JObj kvs))"
    using assms(2) by (simp add: severity_record_def v)
  have p: "py_get (JObj kvs) ''policy'' (JStr []) = Inr (JStr (policy_field (JObj kvs)))"
    using assms(1) policy_get v by blast
  obtain s1 where s1: "count_cloud ''AWS'' (policy_field (JObj kvs))
      (st\<lparr>severity_counts := dict_store (severity_counts st) (severity_of (JObj kvs))
               (tally (severity_counts st) (severity_of (JObj kvs)) + 1)\<rparr>) = Inr s1"
    and c1: "severity_counts s1 = dict_store (severity_counts st) (severity_of (JObj kvs))
               (tally (severity_counts st) (severity_of (JObj kvs)) + 1)"
    using count_cloud_ok [of "''AWS''"] by fastforce
  obtain s2 where s2: "count_cloud ''Azure'' (policy_field (JObj kvs))
      (st\<lparr>severity_counts := dict_store (severity_counts st) (severity_of (JObj kvs))
               (tally (severity_counts st) (severity_of (JObj kvs)) + 1)\<rparr>) = Inr s2"
    and c2: "severity_counts s2 = dict_store (severity_counts st) (severity_of (JObj kvs))
               (tally (severity_counts st) (severity_of (JObj kvs)) + 1)"
    using count_cloud_ok [of "''Azure''"] by fastforce
  show ?thesis
    unfolding v html_count_violation_def severity_get p
    by (simp add: count_key_ok [OF h] s1 c1 s2 c2 del: severity_of.simps policy_field.simps)
qed

lemma json_count_cloud_ok: "\<exists>cc. json_count_cloud (JStr p) clouds = Inr cc"
  by (simp add: json_count_cloud_def count_key_ok)

lemma json_step:
  assumes "violation_record v" and "severity_record v"
  shows "\<exists>st'. json_count_violation v st = Inr st' \<and>
           sev_counts st' =
             dict_store (sev_counts st) (severity_of v) (tally (sev_counts st) (severity_of v) + 1)"
proof -
  from assms(1) obtain kvs where v: "v = JObj kvs"
    using violation_record_dict by blast
  have h: "hashable (severity_of (JObj kvs))"
    using assms(2) by (simp add: severity_record_def v)
  obtain p where p: "py_get (JObj kvs) ''policy'' (JStr ''unknown'') = Inr (JStr p)"
    using assms(1) by (auto simp: v is_str_iff split: option.splits)
  obtain cc where cc: "json_count_cloud (JStr p) (cloud_counts_json st) = Inr cc"
    using json_count_cloud_ok by blast
  show ?thesis
    unfolding v json_count_violation_def severity_get p
    by (simp add: count_key_ok [OF h] count_key_ok cc del: severity_of.simps)
qed

lemma html_count_all_ok:
  assumes "list_all violation_record vs" and "list_all severity_record vs"
  shows "\<exists>st'. html_count_all vs st = Inr st' \<and>
           (\<forall>k. tally (severity_counts st') k =
                  tally (severity_counts st) k +
                  int (length (filter (\<lambda>v. key_norm (severity_of v) = key_norm k) vs)))"
  using assms
proof (induction vs arbitrary: st)
  case Nil
  show ?case by simp
next
  case (Cons v vs)
  then have v: "violation_record v" "severity_record v"
    and vs: "list_all violation_record vs" "list_all severity_record vs"
    by simp_all
  obtain st1 where st1: "html_count_violation v st = Inr st1"
    and c1: "severity_counts st1 =
        dict_store (severity_counts st) (severity_of v)
          (tally (severity_counts st) (severity_of v) + 1)"
    using html_step [OF v] by blast
  obtain st' where st': "html_count_all vs st1 = Inr st'"
    and c': "\<forall>k. tally (severity_counts st') k =
        tally (severity_counts st1) k +
        int (length (filter (\<lambda>v. key_norm (severity_of v) = key_norm k) vs))"
    using Cons.IH [OF vs] by blast
  have "html_count_all (v # vs) st = Inr st'"
    by (simp add: st1 st')
  moreover have "tally (severity_counts st') k =
      tally (severity_counts st) k +
      int (length (filter (\<lambda>v. key_norm (severity_of v) = key_norm k) (v # vs)))" for k
    using c' by (simp add: c1 tally_count)
  ultimately show ?case by blast
qed

lemma json_count_all_ok:
  assumes "list_all violation_record vs" and "list_all severity_record vs"
  shows "\<exists>st'. json_count_all vs st = Inr st' \<and>
           (\<forall>k. tally (sev_counts st') k =
                  tally (sev_counts st) k +
                  int (length (filter (\<lambda>v. key_norm (severity_of v) = key_norm k) vs))) \<and>
           sum_list (map snd (sev_counts st')) = sum_list (map snd (sev_counts st)) + int (length vs) \<and>
           fst ` set (sev_counts st') \<subseteq> fst ` set (sev_counts st) \<union> severity_of ` set vs"
  using assms
proof (induction vs arbitrary: st)
  case Nil
  show ?case by simp
next
  case (Cons v vs)
  then have v: "violation_record v" "severity_record v"
    and vs: "list_all violation_record vs" "list_all severity_record vs"
    by simp_all
  obtain st1 where st1: "json_count_violation v st = Inr st1"
    and c1: "sev_counts st1 =
        dict_store (sev_counts st) (severity_of v) (tally (sev_counts st) (severity_of v) + 1)"
    using json_step [OF v] by blast
  obtain st' where st': "json_count_all vs st1 = Inr st'"
    and c': "\<forall>k. tally (sev_counts st') k =
        tally (sev_counts st1) k +
        int (length (filter (\<lambda>v. key_norm (severity_of v) = key_norm k) vs))"
    and s': "sum_list (map snd (sev_counts st')) =
        sum_list (map snd (sev_counts st1)) + int (length vs)"
    and k': "fst ` set (sev_counts st') \<subseteq> fst ` set (sev_counts st1) \<union> severity_of ` set vs"
    using Cons.IH [OF vs] by blast
  have "json_count_all (v # vs) st = Inr st'"
    by (simp add: st1 st')
  moreover have "tally (sev_counts st') k =
      tally (sev_counts st) k +
      int (length (filter (\<lambda>v. key_norm (severity_of v) = key_norm k) (v # vs)))" for k
    using c' by (simp add: c1 tally_count)
  moreover have "sum_list (map snd (sev_counts st')) =
      sum_list (map snd (sev_counts st)) + int (length (v # vs))"
    using s' by (simp add: c1 sum_count)
  moreover have "fst ` set (sev_counts st') \<subseteq>
      fst ` set (sev_counts st) \<union> severity_of ` set (v # vs)"
    using k' dict_store_keys [of "sev_counts st" "severity_of v"
        "tally (sev_counts st) (severity_of v) + 1"]
    by (auto simp: c1)
  ultimately show ?case by blast
qed

lemma canonical_count:
  "length (filter (\<lambda>x. f x = a) xs) + length (filter (\<lambda>x. f x = b) xs) +
   length (filter (\<lambda>x. f x = c) xs) + length (filter (\<lambda>x. f x = d) xs) =
   length (filter (\<lambda>x. f x \<in> {a, b, c, d}) xs)" if "distinct [a, b, c, d]"
  using that by (induction xs) auto

lemma count_of_tally: "count_of d x = tally d (JStr x)"
  by (simp add: count_of_def tally_def)

lemma json_summary_ok:
  assumes "list_all violation_record vs" and "list_all severity_record vs"
  shows "\<exists>s. json_generate_summary vs = Inr s \<and>
           total_violations s = int (length vs) \<and>
           (\<forall>k. tally (by_severity s) k =
                  int (length (filter (\<lambda>v. key_norm (severity_of v) = key_norm k) vs))) \<and>
           (\<forall>x. count_of (by_severity s) x =
                  int (length (filter (\<lambda>v. severity_of v = JStr x) vs))) \<and>
           sum_list (map snd (by_severity s)) = total_violations s \<and>
           fst ` set (by_severity s) \<subseteq> severity_of ` set vs"
proof (cases "vs = []")
  case True
  then show ?thesis
    by (simp add: json_generate_summary_def count_of_def tally_def)
next
  case False
  define st0 where "st0 = \<lparr>sev_counts = [], policy_counts = [], cloud_counts_json = []\<rparr>"
  obtain st where st: "json_count_all vs st0 = Inr st"
    and t: "\<forall>k. tally (sev_counts st) k =
        tally (sev_counts st0) k +
        int (length (filter (\<lambda>v. key_norm (severity_of v) = key_norm k) vs))"
    and s: "sum_list (map snd (sev_counts st)) =
        sum_list (map snd (sev_counts st0)) + int (length vs)"
    and ks: "fst ` set (sev_counts st) \<subseteq> fst ` set (sev_counts st0) \<union> severity_of ` set vs"
    using json_count_all_ok [OF assms, of st0] by blast
  have g: "tally (sev_counts st) k =
      int (length (filter (\<lambda>v. key_norm (severity_of v) = key_norm k) vs))" for k
    using t by (simp add: st0_def tally_def)
  have "count_of (sev_counts st) x = int (length (filter (\<lambda>v. severity_of v = JStr x) vs))" for x
    using g [of "JStr x"] by (simp add: count_of_tally)
  moreover have "fst ` set (sev_counts st) \<subseteq> severity_of ` set vs"
    using ks by (simp add: st0_def)
  ultimately show ?thesis
    using False st s g
    by (simp add: json_generate_summary_def st0_def [symmetric]) (simp add: st0_def)
qed

lemma html_summary_ok:
  assumes "list_all violation_record vs" and "list_all severity_record vs"
  shows "\<exists>h. html_generate_summary vs = Inr h \<and>
           total_html h = int (length vs) \<and>
           critical h = int (length (filter (\<lambda>v. severity_of v = JStr ''CRITICAL'') vs)) \<and>
           high h = int (length (filter (\<lambda>v. severity_of v = JStr ''HIGH'') vs)) \<and>
           medium h = int (length (filter (\<lambda>v. severity_of v = JStr ''MEDIUM'') vs)) \<and>
           low h = int (length (filter (\<lambda>v. severity_of v = JStr ''LOW'') vs))"
proof (cases "vs = []")
  case True
  then show ?thesis
    by (simp add: html_generate_summary_def)
next
  case False
  define st0 where "st0 =
    \<lparr>severity_counts =
       [(JStr ''CRITICAL'', 0), (JStr ''HIGH'', 0), (JStr ''MEDIUM'', 0), (JStr ''LOW'', 0)],
     cloud_counts = [], category_counts = []\<rparr>"
  obtain st where st: "html_count_all vs st0 = Inr st"
    and t: "\<forall>k. tally (severity_counts st) k =
        tally (severity_counts st0) k +
        int (length (filter (\<lambda>v. key_norm (severity_of v) = key_norm k) vs))"
    using html_count_all_ok [OF assms, of st0] by blast
  have c: "count_of (severity_counts st) x =
      tally (severity_counts st0) (JStr x) +
      int (length (filter (\<lambda>v. severity_of v = JStr x) vs))" for x
    using t by (simp add: count_of_tally)
  have z: "tally (severity_counts st0) (JStr ''CRITICAL'') = 0"
    "tally (severity_counts st0) (JStr ''HIGH'') = 0"
    "tally (severity_counts st0) (JStr ''MEDIUM'') = 0"
    "tally (severity_counts st0) (JStr ''LOW'') = 0"
    by (simp_all add: st0_def tally_def)
  show ?thesis
    using False st
    by (simp add: html_generate_summary_def st0_def [symmetric] c z)
qed

subsection \<open>The conftest loops\<close>

lemma is_dict_iff: "is_dict v \<longleftrightarrow> (\<exists>kvs. v = JObj kvs)"
  by (cases v) auto

lemma msg_get:
  "py_get (JObj kvs) ''msg'' JNull = Inr m \<Longrightarrow>
   (if is_dict m then [m] else []) = msg_mapping (JObj kvs)"
  by (auto split: option.splits json.splits)

lemma collect_failures_ok:
  "list_all is_dict fs \<Longrightarrow>
   collect_failures fs acc = Inr (acc @ concat (map msg_mapping fs))"
proof (induction fs arbitrary: acc)
  case Nil
  show ?case by simp
next
  case (Cons f fs)
  then obtain kvs where f: "f = JObj kvs"
    by (auto simp: is_dict_iff)
  obtain m where m: "py_get (JObj kvs) ''msg'' JNull = Inr m"
    by simp
  have "collect_failures (f # fs) acc =
      collect_failures fs (acc @ msg_mapping (JObj kvs))"
    using msg_get [OF m] by (simp add: f m del: py_get.simps msg_mapping.simps) (metis append_Nil2)
  then show ?case
    using Cons by (simp add: f del: msg_mapping.simps)
qed

lemma py_iter_items: "iterable v \<Longrightarrow> py_iter v = Inr (items v)"
  by (cases v) auto

lemma py_iter_raises: "\<not> iterable v \<Longrightarrow> py_iter v = Inl TypeError"
  by (cases v) auto

lemma items_list: "is_list d \<Longrightarrow> JArr (items d) = d"
  by (cases d) auto

lemma failures_get: "is_dict r \<Longrightarrow> py_get r ''failures'' (JArr []) = Inr (failures_value r)"
  by (cases r) (auto split: option.splits)

lemma not_dict_get: "\<not> is_dict r \<Longrightarrow> py_get r k d = Inl AttributeError"
  by (cases r) auto

lemma collect_failures_raises:
  "\<not> list_all is_dict fs \<Longrightarrow> \<exists>e. collect_failures fs acc = Inl e"
proof (induction fs arbitrary: acc)
  case Nil
  then show ?case by simp
next
  case (Cons f fs)
  show ?case
  proof (cases "is_dict f")
    case True
    then obtain m where m: "py_get f ''msg'' JNull = Inr m"
      by (cases f) auto
    from True Cons.prems have n: "\<not> list_all is_dict fs"
      by simp
    have "\<exists>e. collect_failures fs (if is_dict m then acc @ [m] else acc) = Inl e"
      by (rule Cons.IH [OF n])
    then show ?thesis
      by (simp add: m)
  next
    case False
    then show ?thesis
      by (simp add: not_dict_get)
  qed
qed

lemma collect_results_ok:
  "list_all result_shaped rs \<Longrightarrow>
   collect_results rs acc = Inr (acc @ concat (map shaped_msgs rs))"
proof (induction rs arbitrary: acc)
  case Nil
  show ?case by simp
next
  case (Cons r rs)
  then have r: "result_shaped r" and rs: "list_all result_shaped rs"
    by simp_all
  from r have d: "is_dict r" and i: "iterable (failures_value r)"
    and a: "list_all is_dict (items (failures_value r))"
    by (simp_all add: result_shaped_def)
  show ?case
    by (simp add: failures_get [OF d] py_iter_items [OF i] collect_failures_ok [OF a]
        Cons.IH [OF rs] shaped_msgs_def)
qed

lemma collect_results_raises:
  "\<not> list_all result_shaped rs \<Longrightarrow> \<exists>e. collect_results rs acc = Inl e"
proof (induction rs arbitrary: acc)
  case Nil
  then show ?case by simp
next
  case (Cons r rs)
  show ?case
  proof (cases "result_shaped r")
    case True
    then have d: "is_dict r" and i: "iterable (failures_value r)"
      and a: "list_all is_dict (items (failures_value r))"
      by (simp_all add: result_shaped_def)
    from True Cons.prems have n: "\<not> list_all result_shaped rs"
      by simp
    have "\<exists>e. collect_results rs
        (acc @ concat (map msg_mapping (items (failures_value r)))) = Inl e"
      by (rule Cons.IH [OF n])
    then show ?thesis
      by (simp add: failures_get [OF d] py_iter_items [OF i] collect_failures_ok [OF a])
  next
    case False
    note bad = this
    show ?thesis
    proof (cases "is_dict r")
      case False
      then show ?thesis
        by (simp add: not_dict_get)
    next
      case True
      note d = this
      show ?thesis
      proof (cases "iterable (failures_value r)")
        case False
        then show ?thesis
          by (simp add: failures_get [OF d] py_iter_raises)
      next
        case True
        with d bad have "\<not> list_all is_dict (items (failures_value r))"
          by (simp add: result_shaped_def)
        then obtain e where "collect_failures (items (failures_value r)) acc = Inl e"
          using collect_failures_raises by blast
        then show ?thesis
          by (simp add: failures_get [OF d] py_iter_items [OF True])
      qed
    qed
  qed
qed

lemma extract_shaped:
  assumes "input_shaped data"
  shows "extract_violations data = Inr (normalize_amended data)"
proof (cases data)
  case (JObj kvs)
  show ?thesis
  proof (cases "map_of kvs ''violations''")
    case (Some v)
    then show ?thesis
      by (simp add: JObj extract_violations_def normalize_amended_def)
  next
    case None
    note nv = this
    show ?thesis
    proof (cases "map_of kvs ''deny''")
      case (Some d)
      then have "iterable d"
        using assms nv by (simp add: JObj input_shaped_def)
      then show ?thesis
        using nv Some
        by (simp add: JObj extract_violations_def normalize_amended_def py_iter_items items_list)
    next
      case None
      note nd = this
      show ?thesis
      proof (cases "map_of kvs ''results''")
        case None
        then show ?thesis
          using nv nd by (simp add: JObj extract_violations_def normalize_amended_def)
      next
        case (Some rs)
        then have i: "iterable rs" and sh: "list_all result_shaped (items rs)"
          using assms nv nd by (simp_all add: JObj input_shaped_def)
        show ?thesis
          using nv nd Some
          by (simp add: JObj extract_violations_def normalize_amended_def py_iter_items [OF i]
              collect_results_ok [OF sh])
      qed
    qed
  qed
qed (simp_all add: extract_violations_def normalize_amended_def)

lemma extract_raises:
  assumes "\<not> input_shaped data"
  shows "\<exists>e. extract_violations data = Inl e"
proof (cases data)
  case (JObj kvs)
  show ?thesis
  proof (cases "map_of kvs ''violations''")
    case (Some v)
    then show ?thesis
      using assms by (simp add: JObj input_shaped_def)
  next
    case None
    note nv = this
    show ?thesis
    proof (cases "map_of kvs ''deny''")
      case (Some d)
      then have "\<not> iterable d"
        using assms nv by (simp add: JObj input_shaped_def)
      then show ?thesis
        using nv Some by (simp add: JObj extract_violations_def py_iter_raises)
    next
      case None
      note nd = this
      show ?thesis
      proof (cases "map_of kvs ''results''")
        case None
        then show ?thesis
          using assms nv nd by (simp add: JObj input_shaped_def)
      next
        case (Some rs)
        show ?thesis
        proof (cases "iterable rs")
          case False
          then show ?thesis
            using nv nd Some by (simp add: JObj extract_violations_def py_iter_raises)
        next
          case True
          then have "\<not> list_all result_shaped (items rs)"
            using assms nv nd Some by (simp add: JObj input_shaped_def)
          then obtain e where "collect_results (items rs) [] = Inl e"
            using collect_results_raises by blast
          then show ?thesis
            using nv nd Some
            by (simp add: JObj extract_violations_def py_iter_items [OF True])
        qed
      qed
    qed
  qed
qed (use assms in \<open>simp_all add: input_shaped_def\<close>)

lemma group_all_raises:
  assumes "list_all is_dict vs" and "\<not> list_all severity_record vs"
  shows "group_all vs
           [(JStr ''CRITICAL'', a), (JStr ''HIGH'', b), (JStr ''MEDIUM'', c), (JStr ''LOW'', d)] =
         Inl TypeError"
  using assms
proof (induction vs arbitrary: a b c d)
  case Nil
  then show ?case by simp
next
  case (Cons v vs)
  then have dv: "is_dict v" and dvs: "list_all is_dict vs"
    by simp_all
  show ?case
  proof (cases "severity_record v")
    case True
    with Cons.prems have n: "\<not> list_all severity_record vs"
      by simp
    show ?thesis
      by (simp only: group_all.simps group_step [OF True] sum.case Cons.IH [OF dvs n])
  next
    case False
    from dv obtain kvs where v: "v = JObj kvs"
      by (cases v) auto
    have "\<not> hashable (severity_of (JObj kvs))"
      using False dv by (simp add: severity_record_def v)
    then have "group_violation v
        [(JStr ''CRITICAL'', a), (JStr ''HIGH'', b), (JStr ''MEDIUM'', c), (JStr ''LOW'', d)] =
        Inl TypeError"
      unfolding v group_violation_def severity_get
      by (simp add: dict_contains_def)
    then show ?thesis
      by simp
  qed
qed

lemma group_violations_ok:
  assumes "list_all severity_record violations"
  shows "group_violations violations =
           Inr [(JStr ''CRITICAL'', filter (\<lambda>v. severity_of v = JStr ''CRITICAL'') violations),
                (JStr ''HIGH'', filter (\<lambda>v. severity_of v = JStr ''HIGH'') violations),
                (JStr ''MEDIUM'',
                 filter (\<lambda>v. severity_of v \<notin> {JStr ''CRITICAL'', JStr ''HIGH'', JStr ''LOW''})
                   violations),
                (JStr ''LOW'', filter (\<lambda>v. severity_of v = JStr ''LOW'') violations)] \<and>
         length (filter (\<lambda>v. severity_of v = JStr ''CRITICAL'') violations) +
         length (filter (\<lambda>v. severity_of v = JStr ''HIGH'') violations) +
         length (filter (\<lambda>v. severity_of v \<notin> {JStr ''CRITICAL'', JStr ''HIGH'', JStr ''LOW''})
                   violations) +
         length (filter (\<lambda>v. severity_of v = JStr ''LOW'') violations) = length violations"
proof
  show "group_violations violations =
           Inr [(JStr ''CRITICAL'', filter (\<lambda>v. severity_of v = JStr ''CRITICAL'') violations),
                (JStr ''HIGH'', filter (\<lambda>v. severity_of v = JStr ''HIGH'') violations),
                (JStr ''MEDIUM'',
                 filter (\<lambda>v. severity_of v \<notin> {JStr ''CRITICAL'', JStr ''HIGH'', JStr ''LOW''})
                   violations),
                (JStr ''LOW'', filter (\<lambda>v. severity_of v = JStr ''LOW'') violations)]"
    using group_all_filter [OF assms, of "[]" "[]" "[]" "[]"]
    by (simp add: group_violations_def)
  show "length (filter (\<lambda>v. severity_of v = JStr ''CRITICAL'') violations) +
         length (filter (\<lambda>v. severity_of v = JStr ''HIGH'') violations) +
         length (filter (\<lambda>v. severity_of v \<notin> {JStr ''CRITICAL'', JStr ''HIGH'', JStr ''LOW''})
                   violations) +
         length (filter (\<lambda>v. severity_of v = JStr ''LOW'') violations) = length violations"
    by (rule four_way_count) simp
qed

lemma registered_eval_empty:
  assumes "name \<in> {''sox'', ''pci'', ''ffiec'', ''glba''}"
  shows "\<exists>r. evaluate_framework str_of FRAMEWORK_CONTROLS name [] = Inr r"
proof -
  have "map_of FRAMEWORK_CONTROLS name \<noteq> None"
    using assms by (auto simp: FRAMEWORK_CONTROLS_def)
  then show ?thesis
    using evaluate_framework_ok [of FRAMEWORK_CONTROLS name _ "[]" str_of] by auto
qed

subsection \<open>The sample data\<close>

lemma sample_records:
  "violation_record s3_violation" "violation_record sox_violation"
  "violation_record upper_violation"
  by (simp_all add: s3_violation_def sox_violation_def upper_violation_def)

lemma sample_matches:
  "matched sox_404 s3_violation" "matched sox_404 sox_violation"
  "\<not> matched sox_404 upper_violation"
  by (simp_all add: s3_violation_def sox_violation_def upper_violation_def sox_404_def matched_def)

lemma sox_lookup: "map_of FRAMEWORK_CONTROLS ''sox'' = Some sox_framework"
  by (simp add: FRAMEWORK_CONTROLS_def)

lemma hipaa_lookup: "map_of FRAMEWORK_CONTROLS ''hipaa'' = None"
  by (simp add: FRAMEWORK_CONTROLS_def)

lemma sox_one_s3:
  "case evaluate_framework plain_str FRAMEWORK_CONTROLS ''sox'' [s3_violation] of
     Inl e \<Rightarrow> False
   | Inr r \<Rightarrow>
       map status (controls r) = [''PASS'', ''PARTIAL'', ''PASS''] \<and>
       map score (controls r) = [100, 65, 100] \<and>
       overall_score r = 883 / 10 \<and> mean_score (controls r) = 265 / 3 \<and>
       pass_count r = 2 \<and> partial_count r = 1 \<and> fail_count r = 0"
  by code_simp

lemma sox_mixed:
  "case evaluate_framework plain_str FRAMEWORK_CONTROLS ''sox''
          [s3_violation, sox_violation, upper_violation] of
     Inl e \<Rightarrow> False
   | Inr r \<Rightarrow> map status (controls r) = [''PARTIAL'', ''PARTIAL'', ''PARTIAL'']"
  by code_simp

lemma sample_severities:
  "severity_of high_violation = JStr ''HIGH''" "severity_of info_violation = JStr ''INFO''"
  "severity_of no_severity = JStr ''UNKNOWN''"
  by (simp_all add: high_violation_def info_violation_def no_severity_def)

lemma sample_severity_records:
  "severity_record high_violation" "severity_record info_violation"
  "severity_record no_severity"
  by (simp_all add: severity_record_def sample_severities)
     (simp_all add: high_violation_def info_violation_def no_severity_def)

lemma sample_records2:
  "violation_record info_violation" "violation_record high_violation"
  "violation_record no_severity"
  by (simp_all add: info_violation_def high_violation_def no_severity_def)

lemma json_info:
  "json_generate_summary [info_violation, high_violation, no_severity, info_violation] =
     Inr \<lparr>total_violations = 4,
          by_severity = [(JStr ''INFO'', 2), (JStr ''HIGH'', 1), (JStr ''UNKNOWN'', 1)],
          by_policy = [(JStr ''aws.security.iam_mfa'', 2), (JStr ''azure.security.key_vault'', 1),
                       (JStr ''aws.tagging.required_tags'', 1)],
          by_cloud_json = [(JStr ''AWS'', 3), (JStr ''Azure'', 1)]\<rparr>"
  by code_simp

lemma html_info:
  "html_generate_summary [info_violation, high_violation, no_severity, info_violation] =
     Inr \<lparr>total_html = 4, critical = 0, high = 1, medium = 0, low = 0,
          by_cloud = [(JStr ''AWS'', 3), (JStr ''Azure'', 1)],
          by_category = [(JStr ''security'', 3), (JStr ''tagging'', 1)]\<rparr>"
  by code_simp

lemma conftest_shaped: "input_shaped conftest_output"
  by (simp add: conftest_output_def input_shaped_def result_shaped_def s3_violation_def)

lemma conftest_shaped_value: "normalize_amended conftest_output = JArr [s3_violation]"
  by (simp add: conftest_output_def normalize_amended_def shaped_msgs_def s3_violation_def)

lemma malformed_unshaped: "\<not> input_shaped malformed_results"
  by (simp add: malformed_results_def input_shaped_def result_shaped_def s3_violation_def)

lemma deny_samples:
  "input_shaped deny_string" "normalize_amended deny_string = JArr [JStr ''a'', JStr ''b'', JStr ''c'']"
  "\<not> input_shaped deny_number" "extract_violations deny_number = Inl TypeError"
  by (simp_all add: deny_string_def deny_number_def input_shaped_def normalize_amended_def
      extract_violations_def)

lemma malformed_raises: "extract_violations malformed_results = Inl AttributeError"
  by (simp add: malformed_results_def extract_violations_def s3_violation_def)

text \<open>
  Outside the data model the code raises: a policy that is not a string has no
  \<^verbatim>\<open>startswith\<close>.
\<close>

lemma numeric_policy_raises:
  "evaluate_control plain_str ''SOX-404'' sox_404 [numeric_policy] = Inl AttributeError"
  by (simp add: evaluate_control_def numeric_policy_def sox_404_def)

lemma key_samples:
  "violation_record true_severity" "violation_record one_severity"
  "severity_record true_severity" "severity_record one_severity"
  "severity_of true_severity = JBool True" "severity_of one_severity = JInt 1"
  by (simp_all add: true_severity_def one_severity_def severity_record_def)

lemma json_true_one:
  "json_generate_summary [true_severity, one_severity] =
     Inr \<lparr>total_violations = 2, by_severity = [(JBool True, 2)],
          by_policy = [(JStr ''unknown'', 2)], by_cloud_json = []\<rparr>"
  by code_simp

lemma list_severity_dict: "is_dict list_severity" "\<not> severity_record list_severity"
  by (simp_all add: list_severity_def severity_record_def)

section \<open>The claims\<close>

text \<open>
  C1. For violations that are records of the data model, \<^verbatim>\<open>_evaluate_control\<close> returns a
  result whose status and score follow the number of matched violations: none gives
  PASS and 100, one or two give PARTIAL and 65, three or more give FAIL and 25; no
  other score occurs.
\<close>

theorem evaluate_control_buckets:
  assumes "list_all violation_record violations"
  shows "\<exists>r. evaluate_control str_of cid c violations = Inr r \<and>
           (length (filter (matched c) violations) = 0 \<longrightarrow> status r = ''PASS'' \<and> score r = 100) \<and>
           (length (filter (matched c) violations) \<in> {1, 2} \<longrightarrow>
              status r = ''PARTIAL'' \<and> score r = 65) \<and>
           (3 \<le> length (filter (matched c) violations) \<longrightarrow> status r = ''FAIL'' \<and> score r = 25) \<and>
           score r \<in> {100, 65, 25}"
  using evaluate_control_eq [OF assms, of str_of cid c]
  by (auto simp: Let_def)

theorem evaluate_control_buckets_witness:
  "list_all violation_record [] \<and>
   (\<exists>r. evaluate_control plain_str ''SOX-404'' sox_404 [] = Inr r \<and>
        status r = ''PASS'' \<and> score r = 100) \<and>
   list_all violation_record [s3_violation, sox_violation, upper_violation] \<and>
   (\<exists>r. evaluate_control plain_str ''SOX-404'' sox_404
           [s3_violation, sox_violation, upper_violation] = Inr r \<and>
        status r = ''PARTIAL'' \<and> score r = 65) \<and>
   list_all violation_record [s3_violation, sox_violation, upper_violation, s3_violation] \<and>
   (\<exists>r. evaluate_control plain_str ''SOX-404'' sox_404
           [s3_violation, sox_violation, upper_violation, s3_violation] = Inr r \<and>
        status r = ''FAIL'' \<and> score r = 25)"
proof -
  have wf0: "list_all violation_record []"
    by simp
  have wf2: "list_all violation_record [s3_violation, sox_violation, upper_violation]"
    by (simp add: sample_records)
  have wf3: "list_all violation_record [s3_violation, sox_violation, upper_violation, s3_violation]"
    by (simp add: sample_records)
  have "\<exists>r. evaluate_control plain_str ''SOX-404'' sox_404 [] = Inr r \<and>
        status r = ''PASS'' \<and> score r = 100"
    using evaluate_control_buckets [OF wf0, of plain_str "''SOX-404''" sox_404]
    by auto
  moreover have "\<exists>r. evaluate_control plain_str ''SOX-404'' sox_404
           [s3_violation, sox_violation, upper_violation] = Inr r \<and>
        status r = ''PARTIAL'' \<and> score r = 65"
    using evaluate_control_buckets [OF wf2, of plain_str "''SOX-404''" sox_404]
    by (auto simp: sample_matches)
  moreover have "\<exists>r. evaluate_control plain_str ''SOX-404'' sox_404
           [s3_violation, sox_violation, upper_violation, s3_violation] = Inr r \<and>
        status r = ''FAIL'' \<and> score r = 25"
    using evaluate_control_buckets [OF wf3, of plain_str "''SOX-404''" sox_404]
    by (auto simp: sample_matches)
  ultimately show ?thesis
    using wf0 wf2 wf3 by blast
qed

text \<open>
  C2. The violations \<^verbatim>\<open>_evaluate_control\<close> maps to a control are exactly those, in order,
  whose policy (the empty string when missing) has one of the control's prefixes as a
  prefix, compared character by character. \<^verbatim>\<open>evaluate_framework\<close> evaluates every control
  against the whole violation list, so a match with one control takes nothing from
  another.
\<close>

theorem violation_matching:
  assumes "list_all violation_record violations"
  shows "map_violations c violations [] =
           Inr (filter (\<lambda>v. \<exists>m \<in> set (policy_mappings c). prefix m (policy_field v)) violations) \<and>
         (\<forall>fw. map_of frameworks name = Some fw \<longrightarrow>
            (\<exists>r. evaluate_framework str_of frameworks name violations = Inr r \<and>
                 list_all2 (\<lambda>p cr. evaluate_control str_of (fst p) (snd p) violations = Inr cr)
                   (fw_controls fw) (controls r)))"
proof
  show "map_violations c violations [] =
      Inr (filter (\<lambda>v. \<exists>m \<in> set (policy_mappings c). prefix m (policy_field v)) violations)"
    using map_violations_filter [OF assms, of c "[]"]
    by (simp add: matched_def [abs_def])
  show "\<forall>fw. map_of frameworks name = Some fw \<longrightarrow>
      (\<exists>r. evaluate_framework str_of frameworks name violations = Inr r \<and>
           list_all2 (\<lambda>p cr. evaluate_control str_of (fst p) (snd p) violations = Inr cr)
             (fw_controls fw) (controls r))"
    using evaluate_framework_ok [OF _ assms, of frameworks name _ str_of] by blast
qed

theorem violation_matching_witness:
  "list_all violation_record [s3_violation, sox_violation, upper_violation] \<and>
   map_violations sox_404 [s3_violation, sox_violation, upper_violation] [] =
     Inr [s3_violation, sox_violation] \<and>
   map_of FRAMEWORK_CONTROLS ''sox'' = Some sox_framework \<and>
   (\<exists>r. evaluate_framework plain_str FRAMEWORK_CONTROLS ''sox''
           [s3_violation, sox_violation, upper_violation] = Inr r \<and>
        list_all2
          (\<lambda>p cr. evaluate_control plain_str (fst p) (snd p)
                     [s3_violation, sox_violation, upper_violation] = Inr cr)
          (fw_controls sox_framework) (controls r) \<and>
        map status (controls r) = [''PARTIAL'', ''PARTIAL'', ''PARTIAL''])"
proof -
  have wf: "list_all violation_record [s3_violation, sox_violation, upper_violation]"
    by (simp add: sample_records)
  have m: "filter (\<lambda>v. \<exists>m \<in> set (policy_mappings sox_404). prefix m (policy_field v))
      [s3_violation, sox_violation, upper_violation] = [s3_violation, sox_violation]"
    using sample_matches by (simp add: matched_def)
  note t = violation_matching [OF wf, of sox_404 FRAMEWORK_CONTROLS "''sox''" plain_str]
  have a: "map_violations sox_404 [s3_violation, sox_violation, upper_violation] [] =
      Inr [s3_violation, sox_violation]"
    using conjunct1 [OF t] unfolding m .
  obtain r where r: "evaluate_framework plain_str FRAMEWORK_CONTROLS ''sox''
        [s3_violation, sox_violation, upper_violation] = Inr r"
    and all: "list_all2
        (\<lambda>p cr. evaluate_control plain_str (fst p) (snd p)
                   [s3_violation, sox_violation, upper_violation] = Inr cr)
        (fw_controls sox_framework) (controls r)"
    using conjunct2 [OF t] sox_lookup by blast
  have s: "map status (controls r) = [''PARTIAL'', ''PARTIAL'', ''PARTIAL'']"
    using sox_mixed by (simp add: r)
  show ?thesis
    using wf a sox_lookup r all s
    by - (intro conjI exI [of _ r]; assumption)
qed

text \<open>
  C3. For a framework of the registry and violations of the data model,
  \<^verbatim>\<open>evaluate_framework\<close> returns a result with one control result per control of the
  framework; each of them is counted by exactly one of the three counters, which
  therefore add up to the number of controls.
\<close>

theorem framework_counts:
  assumes "map_of frameworks name = Some fw" and "list_all violation_record violations"
  shows "\<exists>r. evaluate_framework str_of frameworks name violations = Inr r \<and>
           length (controls r) = length (fw_controls fw) \<and>
           pass_count r = int (length (filter (\<lambda>cr. status cr = ''PASS'') (controls r))) \<and>
           partial_count r = int (length (filter (\<lambda>cr. status cr = ''PARTIAL'') (controls r))) \<and>
           fail_count r =
             int (length (filter (\<lambda>cr. status cr \<noteq> ''PASS'' \<and> status cr \<noteq> ''PARTIAL'')
                    (controls r))) \<and>
           pass_count r + partial_count r + fail_count r = int (length (fw_controls fw))"
proof -
  obtain r where r: "evaluate_framework str_of frameworks name violations = Inr r"
    and all: "list_all2 (\<lambda>p cr. evaluate_control str_of (fst p) (snd p) violations = Inr cr)
        (fw_controls fw) (controls r)"
    and pc: "pass_count r = int (length (filter (\<lambda>cr. status cr = ''PASS'') (controls r)))"
    and qc: "partial_count r = int (length (filter (\<lambda>cr. status cr = ''PARTIAL'') (controls r)))"
    and fc: "fail_count r =
        int (length (filter (\<lambda>cr. status cr \<noteq> ''PASS'' \<and> status cr \<noteq> ''PARTIAL'')
               (controls r)))"
    using evaluate_framework_ok [OF assms, of str_of] by blast
  have len: "length (controls r) = length (fw_controls fw)"
    using all by (simp add: list_all2_lengthD)
  have "pass_count r + partial_count r + fail_count r = int (length (controls r))"
    using three_way_count [of "''PASS''" "''PARTIAL''" status "controls r"]
    by (simp add: pc qc fc)
  then show ?thesis
    using r len pc qc fc by simp
qed

theorem framework_counts_witness:
  "map_of FRAMEWORK_CONTROLS ''sox'' = Some sox_framework \<and>
   list_all violation_record [s3_violation] \<and>
   (\<exists>r. evaluate_framework plain_str FRAMEWORK_CONTROLS ''sox'' [s3_violation] = Inr r \<and>
        pass_count r = 2 \<and> partial_count r = 1 \<and> fail_count r = 0 \<and>
        pass_count r + partial_count r + fail_count r = int (length (fw_controls sox_framework)) \<and>
        length (fw_controls sox_framework) = 3)"
proof -
  have wf: "list_all violation_record [s3_violation]"
    by (simp add: sample_records)
  show ?thesis
    using framework_counts [OF sox_lookup wf, of plain_str] wf sox_lookup sox_one_s3
      registry_sizes(1)
    by (auto split: sum.splits)
qed

text \<open>
  C4. For a framework of the registry and violations of the data model, the overall
  score is the mean of the control scores rounded to one decimal place: a multiple of
  one tenth at most one twentieth from the mean, and for the frameworks of the table
  \<^verbatim>\<open>FRAMEWORK_CONTROLS\<close> strictly nearer, so that no tie is ever broken. It lies between
  0 and 100. For a framework without controls it is 0, and nothing is divided.
\<close>

theorem overall_score_mean:
  assumes "map_of frameworks name = Some fw" and "list_all violation_record violations"
  shows "\<exists>r. evaluate_framework str_of frameworks name violations = Inr r \<and>
           (fw_controls fw = [] \<longrightarrow> overall_score r = 0) \<and>
           (fw_controls fw \<noteq> [] \<longrightarrow>
              overall_score r = py_round1 (mean_score (controls r)) \<and>
              (\<exists>k::int. overall_score r = of_int k / 10) \<and>
              \<bar>overall_score r - mean_score (controls r)\<bar> \<le> 1 / 20 \<and>
              (frameworks = FRAMEWORK_CONTROLS \<longrightarrow>
                 \<bar>overall_score r - mean_score (controls r)\<bar> < 1 / 20)) \<and>
           0 \<le> overall_score r \<and> overall_score r \<le> 100"
proof -
  obtain r where r: "evaluate_framework str_of frameworks name violations = Inr r"
    and all: "list_all2 (\<lambda>p cr. evaluate_control str_of (fst p) (snd p) violations = Inr cr)
        (fw_controls fw) (controls r)"
    and os: "overall_score r = (if controls r = [] then 0 else py_round1 (mean_score (controls r)))"
    using evaluate_framework_ok [OF assms, of str_of] by blast
  have len: "length (controls r) = length (fw_controls fw)"
    using all by (simp add: list_all2_lengthD)
  then have empty: "controls r = [] \<longleftrightarrow> fw_controls fw = []" by auto
  have tenth: "\<exists>k::int. py_round1 x = of_int k / 10" for x
    by (auto simp: py_round1_def)
  have bounds: "0 \<le> overall_score r \<and> overall_score r \<le> 100"
  proof (cases "controls r = []")
    case True
    then show ?thesis by (simp add: os)
  next
    case False
    have "25 \<le> mean_score (controls r) \<and> mean_score (controls r) \<le> 100"
      using scores_bounds [OF all assms(2)] False mean_score_bounds by blast
    then show ?thesis
      using py_round1_bounds [of "mean_score (controls r)"] False by (simp add: os)
  qed
  have strict: "\<bar>py_round1 (mean_score (controls r)) - mean_score (controls r)\<bar> < 1 / 20"
    if "frameworks = FRAMEWORK_CONTROLS"
    using mean_tie_free [of name fw "controls r"] assms(1) len that by simp
  show ?thesis
    using r os empty bounds tenth py_round1_near [of "mean_score (controls r)"] strict
    by auto
qed

theorem overall_score_mean_witness:
  "map_of FRAMEWORK_CONTROLS ''sox'' = Some sox_framework \<and>
   list_all violation_record [s3_violation] \<and> fw_controls sox_framework \<noteq> [] \<and>
   (\<exists>r. evaluate_framework plain_str FRAMEWORK_CONTROLS ''sox'' [s3_violation] = Inr r \<and>
        mean_score (controls r) = 265 / 3 \<and> overall_score r = 883 / 10 \<and>
        \<bar>overall_score r - mean_score (controls r)\<bar> < 1 / 20 \<and>
        0 \<le> overall_score r \<and> overall_score r \<le> 100) \<and>
   map_of no_controls ''none'' =
     Some \<lparr>fw_name = ''None'', fw_description = ''A framework without controls'',
           fw_controls = []\<rparr> \<and>
   (\<exists>r. evaluate_framework plain_str no_controls ''none'' [s3_violation] = Inr r \<and>
        overall_score r = 0)"
proof -
  have wf: "list_all violation_record [s3_violation]"
    by (simp add: sample_records)
  have ne: "fw_controls sox_framework \<noteq> []"
    using registry_sizes(1) by auto
  have none: "map_of no_controls ''none'' =
     Some \<lparr>fw_name = ''None'', fw_description = ''A framework without controls'',
           fw_controls = []\<rparr>"
    by (simp add: no_controls_def)
  have "\<exists>r. evaluate_framework plain_str FRAMEWORK_CONTROLS ''sox'' [s3_violation] = Inr r \<and>
        mean_score (controls r) = 265 / 3 \<and> overall_score r = 883 / 10 \<and>
        \<bar>overall_score r - mean_score (controls r)\<bar> < 1 / 20 \<and>
        0 \<le> overall_score r \<and> overall_score r \<le> 100"
    using overall_score_mean [OF sox_lookup wf, of plain_str] sox_one_s3 ne
    by (auto split: sum.splits)
  moreover have "\<exists>r. evaluate_framework plain_str no_controls ''none'' [s3_violation] = Inr r \<and>
        overall_score r = 0"
    using overall_score_mean [OF none wf, of plain_str]
    by auto
  ultimately show ?thesis
    using wf ne none sox_lookup by blast
qed

text \<open>
  C5, as stated, fails when an entry of a \<open>failures\<close> array is not a mapping: the claim
  has the entry skipped and the \<open>msg\<close> mapping of the entry before it returned, but
  reading the entry raises, and \<^verbatim>\<open>load_violations\<close> reports the exception and returns
  the empty list.
\<close>

theorem load_violations_counterexample:
  "normalize_spec malformed_results = JArr [s3_violation] \<and>
   load_violations exc_name ''violations.json'' (Loaded malformed_results) =
     ([''Error loading violations from violations.json: AttributeError''], JArr [])"
  by (simp add: malformed_results_def normalize_spec_def result_msgs_def s3_violation_def
      load_violations_def extract_violations_def)

text \<open>
  C5, amended. \<^verbatim>\<open>load_violations\<close> never raises, and every input is of one of two
  kinds. An input that can be normalized gives, in this order of priority, the value
  under \<open>violations\<close> as it is; else the list under \<open>deny\<close> as it is, or, when the value
  is a mapping or a string, the list of its keys or of its characters; else the \<open>msg\<close>
  mappings of the entries of the \<open>failures\<close> of the results, skipping an entry whose
  \<open>msg\<close> is missing or not a mapping; else the input when it is a list; else the empty
  list; nothing is reported. For every other input (a value under \<open>deny\<close> or \<open>results\<close>
  that cannot be iterated, a result or an entry of \<open>failures\<close> that is not a mapping, a
  \<open>failures\<close> that cannot be iterated) reading it raises, the exception is reported on
  the error stream and the result is the empty list.
\<close>

theorem load_violations_dispatch:
  "(input_shaped data \<longrightarrow>
      load_violations exc_text file_path (Loaded data) = ([], normalize_amended data)) \<and>
   (\<not> input_shaped data \<longrightarrow>
      (\<exists>e. extract_violations data = Inl e \<and>
           load_violations exc_text file_path (Loaded data) =
             ([''Error loading violations from '' @ file_path @ '': '' @ exc_text e], JArr []))) \<and>
   (\<forall>e. extract_violations data = Inl e \<longrightarrow>
      load_violations exc_text file_path (Loaded data) =
        ([''Error loading violations from '' @ file_path @ '': '' @ exc_text e], JArr []))"
proof (intro conjI impI allI)
  assume "input_shaped data"
  then show "load_violations exc_text file_path (Loaded data) = ([], normalize_amended data)"
    by (simp add: load_violations_def extract_shaped)
next
  assume "\<not> input_shaped data"
  then obtain e where e: "extract_violations data = Inl e"
    using extract_raises by blast
  then have "load_violations exc_text file_path (Loaded data) =
      ([''Error loading violations from '' @ file_path @ '': '' @ exc_text e], JArr [])"
    by (simp add: load_violations_def)
  with e show "\<exists>e. extract_violations data = Inl e \<and>
      load_violations exc_text file_path (Loaded data) =
        ([''Error loading violations from '' @ file_path @ '': '' @ exc_text e], JArr [])"
    by blast
next
  fix e
  assume "extract_violations data = Inl e"
  then show "load_violations exc_text file_path (Loaded data) =
      ([''Error loading violations from '' @ file_path @ '': '' @ exc_text e], JArr [])"
    by (simp add: load_violations_def)
qed

theorem load_violations_dispatch_witness:
  "input_shaped conftest_output \<and>
   load_violations exc_name ''violations.json'' (Loaded conftest_output) =
     ([], JArr [s3_violation]) \<and>
   input_shaped deny_string \<and>
   load_violations exc_name ''violations.json'' (Loaded deny_string) =
     ([], JArr [JStr ''a'', JStr ''b'', JStr ''c'']) \<and>
   \<not> input_shaped malformed_results \<and>
   extract_violations malformed_results = Inl AttributeError \<and>
   load_violations exc_name ''violations.json'' (Loaded malformed_results) =
     ([''Error loading violations from violations.json: AttributeError''], JArr []) \<and>
   \<not> input_shaped deny_number \<and>
   extract_violations deny_number = Inl TypeError \<and>
   load_violations exc_name ''violations.json'' (Loaded deny_number) =
     ([''Error loading violations from violations.json: TypeError''], JArr [])"
  using load_violations_dispatch [of conftest_output exc_name "''violations.json''"]
    load_violations_dispatch [of deny_string exc_name "''violations.json''"]
    load_violations_dispatch [of malformed_results exc_name "''violations.json''"]
    load_violations_dispatch [of deny_number exc_name "''violations.json''"]
    conftest_shaped conftest_shaped_value malformed_unshaped malformed_raises deny_samples
  by simp

text \<open>
  C6. For a name that is not in the registry \<^verbatim>\<open>evaluate_framework\<close> raises the
  unknown-framework \<^verbatim>\<open>ValueError\<close>, and \<^verbatim>\<open>generate_report\<close> passes it on to its caller
  without writing a report. For a name of the registry and violations of the data
  model it returns a result.
\<close>

theorem unknown_framework_error:
  "(map_of frameworks name = None \<longrightarrow>
      evaluate_framework str_of frameworks name violations =
        Inl (ValueError (''Unknown framework: '' @ name)) \<and>
      (py_iter (snd (load_violations exc_text input_file file)) = Inr violations \<longrightarrow>
         generate_report exc_text str_of frameworks name input_file file output_path w =
           (Some (ValueError (''Unknown framework: '' @ name)),
            w\<lparr>errs := errs w @ fst (load_violations exc_text input_file file)\<rparr>))) \<and>
   (map_of frameworks name \<noteq> None \<and> list_all violation_record violations \<longrightarrow>
      (\<exists>r. evaluate_framework str_of frameworks name violations = Inr r))"
proof (intro conjI impI)
  assume n: "map_of frameworks name = None"
  then show e: "evaluate_framework str_of frameworks name violations =
      Inl (ValueError (''Unknown framework: '' @ name))"
    by (simp add: evaluate_framework_def)
  assume it: "py_iter (snd (load_violations exc_text input_file file)) = Inr violations"
  obtain lines v where lv: "load_violations exc_text input_file file = (lines, v)"
    by (cases "load_violations exc_text input_file file")
  show "generate_report exc_text str_of frameworks name input_file file output_path w =
      (Some (ValueError (''Unknown framework: '' @ name)),
       w\<lparr>errs := errs w @ fst (load_violations exc_text input_file file)\<rparr>)"
    using e it by (simp add: generate_report_def lv)
next
  assume "map_of frameworks name \<noteq> None \<and> list_all violation_record violations"
  then show "\<exists>r. evaluate_framework str_of frameworks name violations = Inr r"
    using evaluate_framework_ok [of frameworks name _ violations str_of] by blast
qed

theorem unknown_framework_error_witness:
  "map_of FRAMEWORK_CONTROLS ''hipaa'' = None \<and>
   evaluate_framework plain_str FRAMEWORK_CONTROLS ''hipaa'' [s3_violation] =
     Inl (ValueError ''Unknown framework: hipaa'') \<and>
   py_iter (snd (load_violations exc_name ''violations.json'' (Loaded (JArr [s3_violation])))) =
     Inr [s3_violation] \<and>
   generate_report exc_name plain_str FRAMEWORK_CONTROLS ''hipaa'' ''violations.json''
       (Loaded (JArr [s3_violation])) ''report.html'' started =
     (Some (ValueError ''Unknown framework: hipaa''), started) \<and>
   map_of FRAMEWORK_CONTROLS ''sox'' \<noteq> None \<and> list_all violation_record [s3_violation] \<and>
   (\<exists>r. evaluate_framework plain_str FRAMEWORK_CONTROLS ''sox'' [s3_violation] = Inr r)"
proof -
  have wf: "list_all violation_record [s3_violation]"
    by (simp add: sample_records)
  have lv: "load_violations exc_name ''violations.json'' (Loaded (JArr [s3_violation])) =
      ([], JArr [s3_violation])"
    by (simp add: load_violations_def extract_violations_def)
  show ?thesis
    using unknown_framework_error [of FRAMEWORK_CONTROLS "''hipaa''" plain_str "[s3_violation]"
        exc_name "''violations.json''" "Loaded (JArr [s3_violation])" "''report.html''" started]
      unknown_framework_error [of FRAMEWORK_CONTROLS "''sox''" plain_str "[s3_violation]"
        exc_name "''violations.json''" "Loaded (JArr [s3_violation])" "''report.html''" started]
      wf hipaa_lookup sox_lookup
    by (simp add: lv started_def)
qed

text \<open>
  C7, as stated, fails for the compliance reporter: on an input file that is not JSON
  it reports the error, evaluates the framework over no violations, writes the report
  and exits with code 0.
\<close>

theorem invalid_json_counterexample:
  "main exc_name plain_str sox_args True (JSONDecodeError ''Expecting value'') =
     \<lparr>errs = [''Error loading violations from violations.json: Expecting value''],
      files = [''reports/sox-compliance-report.html''], exit_code = 0\<rparr>"
proof -
  obtain r where r: "evaluate_framework plain_str FRAMEWORK_CONTROLS ''sox'' [] = Inr r"
    using registered_eval_empty [of "''sox''" plain_str] by auto
  show ?thesis
    by (simp add: main_def sox_args_def generate_report_def load_violations_def r finish_def
        started_def)
qed

text \<open>
  C7, amended. On an input file that is not JSON the \<^verbatim>\<open>generate\<close> command reports the
  error on the error stream, writes no output file and exits with code 1;
  \<^verbatim>\<open>load_violations\<close> of the compliance reporter reports the error on the error stream
  and returns the empty list.
\<close>

theorem invalid_json_handling:
  "generate exc_text ts (JSONDecodeError msg) output_dir formats =
     \<lparr>errs = [''Error: Invalid JSON in input file: '' @ msg], files = [], exit_code = 1\<rparr> \<and>
   load_violations exc_text file_path (JSONDecodeError msg) =
     ([''Error loading violations from '' @ file_path @ '': '' @ msg], JArr [])"
  by (simp add: generate_def started_def load_violations_def)

theorem invalid_json_handling_witness:
  "generate exc_name ''20240101_120000'' (JSONDecodeError ''Expecting value'') ''reports''
       [''html'', ''json'', ''csv''] =
     \<lparr>errs = [''Error: Invalid JSON in input file: Expecting value''], files = [],
      exit_code = 1\<rparr> \<and>
   load_violations exc_name ''violations.json'' (JSONDecodeError ''Expecting value'') =
     ([''Error loading violations from violations.json: Expecting value''], JArr [])"
  using invalid_json_handling [of exc_name "''20240101_120000''" "''Expecting value''"
      "''reports''" "[''html'', ''json'', ''csv'']" "''violations.json''"]
  by simp

text \<open>
  C8. The result of \<^verbatim>\<open>_evaluate_control\<close> has one of the three statuses. With PASS the
  findings are empty and the evidence is the one fixed sentence; with PARTIAL or FAIL
  the evidence is empty and the findings are the texts \<open>severity: message\<close> of the
  matched violations in their order, with the defaults MEDIUM and No message.
\<close>

theorem control_findings_evidence:
  assumes "list_all violation_record violations"
  shows "\<exists>r. evaluate_control str_of cid c violations = Inr r \<and>
           status r \<in> {''PASS'', ''PARTIAL'', ''FAIL''} \<and>
           (status r = ''PASS'' \<longrightarrow>
              findings r = [] \<and> evidence r = [''No policy violations found for this control'']) \<and>
           (status r = ''PARTIAL'' \<or> status r = ''FAIL'' \<longrightarrow>
              evidence r = [] \<and>
              findings r = map (finding_text str_of) (filter (matched c) violations))"
  using evaluate_control_eq [OF assms, of str_of cid c]
  by (auto simp: Let_def)

theorem control_findings_evidence_witness:
  "list_all violation_record [s3_violation, sox_violation, upper_violation] \<and>
   (\<exists>r. evaluate_control plain_str ''SOX-404'' sox_404
           [s3_violation, sox_violation, upper_violation] = Inr r \<and>
        status r = ''PARTIAL'' \<and> evidence r = [] \<and>
        findings r = [''MEDIUM: No message'', ''HIGH: Audit trail disabled''])"
proof -
  have wf: "list_all violation_record [s3_violation, sox_violation, upper_violation]"
    by (simp add: sample_records)
  have b: "evaluate_control plain_str ''SOX-404'' sox_404
      [s3_violation, sox_violation, upper_violation] = Inr r \<Longrightarrow> status r = ''PARTIAL''" for r
    using evaluate_control_eq [OF wf, of plain_str "''SOX-404''" sox_404]
    by (auto simp: sample_matches Let_def)
  have t: "finding_text plain_str s3_violation = ''MEDIUM: No message''"
    "finding_text plain_str sox_violation = ''HIGH: Audit trail disabled''"
    by (simp_all add: finding_text_def s3_violation_def sox_violation_def)
  show ?thesis
    using control_findings_evidence [OF wf, of plain_str "''SOX-404''" sox_404] wf b
    by (auto simp: sample_matches t)
qed

text \<open>
  C9, as stated, fails for the summary of the HTML report: a violation with the
  severity INFO is counted in the total and in none of the four severity counts, which
  are all the summary holds.
\<close>

theorem html_summary_counterexample:
  "html_generate_summary [info_violation] = Inr info_summary \<and>
   critical info_summary + high info_summary + medium info_summary + low info_summary \<noteq>
     total_html info_summary"
  by (simp add: info_summary_def) code_simp

text \<open>
  C9, amended. For violations that are mappings with a string policy and a hashable
  severity: the summary of the JSON report counts every violation in \<open>by_severity\<close>
  under its own severity (\<open>UNKNOWN\<close> when missing) as the dictionary key, so that the
  count found under any key is the number of violations whose severity equals the key
  in Python (\<open>key_norm\<close>: \<^verbatim>\<open>True\<close> is \<^verbatim>\<open>1\<close> and \<^verbatim>\<open>False\<close> is \<^verbatim>\<open>0\<close>; a string equals
  only itself), every key is the severity of some violation, and the counts add up to
  the total; the summary of the HTML report
  holds the four counts of the canonical severities only, each the number of
  violations with exactly that severity, which add up to the number of violations
  with a canonical severity, at most the total.
\<close>

theorem severity_summaries:
  assumes "list_all violation_record violations" and "list_all severity_record violations"
  shows "(\<exists>s. json_generate_summary violations = Inr s \<and>
            total_violations s = int (length violations) \<and>
            (\<forall>k. tally (by_severity s) k =
                   int (length (filter (\<lambda>v. key_norm (severity_of v) = key_norm k) violations))) \<and>
            (\<forall>x. count_of (by_severity s) x =
                   int (length (filter (\<lambda>v. severity_of v = JStr x) violations))) \<and>
            sum_list (map snd (by_severity s)) = total_violations s \<and>
            fst ` set (by_severity s) \<subseteq> severity_of ` set violations) \<and>
         (\<exists>h. html_generate_summary violations = Inr h \<and>
            total_html h = int (length violations) \<and>
            critical h = int (length (filter (\<lambda>v. severity_of v = JStr ''CRITICAL'') violations)) \<and>
            high h = int (length (filter (\<lambda>v. severity_of v = JStr ''HIGH'') violations)) \<and>
            medium h = int (length (filter (\<lambda>v. severity_of v = JStr ''MEDIUM'') violations)) \<and>
            low h = int (length (filter (\<lambda>v. severity_of v = JStr ''LOW'') violations)) \<and>
            critical h + high h + medium h + low h =
              int (length (filter (\<lambda>v. severity_of v \<in>
                     {JStr ''CRITICAL'', JStr ''HIGH'', JStr ''MEDIUM'', JStr ''LOW''}) violations)) \<and>
            critical h + high h + medium h + low h \<le> total_html h)"
proof
  show "\<exists>s. json_generate_summary violations = Inr s \<and>
            total_violations s = int (length violations) \<and>
            (\<forall>k. tally (by_severity s) k =
                   int (length (filter (\<lambda>v. key_norm (severity_of v) = key_norm k) violations))) \<and>
            (\<forall>x. count_of (by_severity s) x =
                   int (length (filter (\<lambda>v. severity_of v = JStr x) violations))) \<and>
            sum_list (map snd (by_severity s)) = total_violations s \<and>
            fst ` set (by_severity s) \<subseteq> severity_of ` set violations"
    by (rule json_summary_ok [OF assms])
  obtain h where h: "html_generate_summary violations = Inr h"
    and t: "total_html h = int (length violations)"
    and c: "critical h = int (length (filter (\<lambda>v. severity_of v = JStr ''CRITICAL'') violations))"
      "high h = int (length (filter (\<lambda>v. severity_of v = JStr ''HIGH'') violations))"
      "medium h = int (length (filter (\<lambda>v. severity_of v = JStr ''MEDIUM'') violations))"
      "low h = int (length (filter (\<lambda>v. severity_of v = JStr ''LOW'') violations))"
    using html_summary_ok [OF assms] by blast
  have sum: "critical h + high h + medium h + low h =
      int (length (filter (\<lambda>v. severity_of v \<in>
             {JStr ''CRITICAL'', JStr ''HIGH'', JStr ''MEDIUM'', JStr ''LOW''}) violations))"
    using canonical_count [of "JStr ''CRITICAL''" "JStr ''HIGH''" "JStr ''MEDIUM''" "JStr ''LOW''"
        severity_of violations]
    by (simp add: c)
  have "critical h + high h + medium h + low h \<le> total_html h"
    unfolding sum t by simp
  then show "\<exists>h. html_generate_summary violations = Inr h \<and>
            total_html h = int (length violations) \<and>
            critical h = int (length (filter (\<lambda>v. severity_of v = JStr ''CRITICAL'') violations)) \<and>
            high h = int (length (filter (\<lambda>v. severity_of v = JStr ''HIGH'') violations)) \<and>
            medium h = int (length (filter (\<lambda>v. severity_of v = JStr ''MEDIUM'') violations)) \<and>
            low h = int (length (filter (\<lambda>v. severity_of v = JStr ''LOW'') violations)) \<and>
            critical h + high h + medium h + low h =
              int (length (filter (\<lambda>v. severity_of v \<in>
                     {JStr ''CRITICAL'', JStr ''HIGH'', JStr ''MEDIUM'', JStr ''LOW''}) violations)) \<and>
            critical h + high h + medium h + low h \<le> total_html h"
    using h t c sum by blast
qed

theorem severity_summaries_witness:
  "list_all violation_record [info_violation, high_violation, no_severity, info_violation] \<and>
   list_all severity_record [info_violation, high_violation, no_severity, info_violation] \<and>
   (\<exists>s. json_generate_summary [info_violation, high_violation, no_severity, info_violation] =
          Inr s \<and>
        by_severity s = [(JStr ''INFO'', 2), (JStr ''HIGH'', 1), (JStr ''UNKNOWN'', 1)] \<and>
        sum_list (map snd (by_severity s)) = 4 \<and> total_violations s = 4) \<and>
   (\<exists>h. html_generate_summary [info_violation, high_violation, no_severity, info_violation] =
          Inr h \<and>
        total_html h = 4 \<and> critical h + high h + medium h + low h = 1) \<and>
   list_all violation_record [true_severity, one_severity] \<and>
   list_all severity_record [true_severity, one_severity] \<and>
   (\<exists>s. json_generate_summary [true_severity, one_severity] = Inr s \<and>
        by_severity s = [(JBool True, 2)] \<and>
        tally (by_severity s) (JInt 1) = 2 \<and> tally (by_severity s) (JBool True) = 2 \<and>
        tally (by_severity s) (JStr ''1'') = 0)"
proof -
  have wf: "list_all violation_record [info_violation, high_violation, no_severity, info_violation]"
    by (simp add: sample_records2)
  have sv: "list_all severity_record [info_violation, high_violation, no_severity, info_violation]"
    by (simp add: sample_severity_records)
  have wf2: "list_all violation_record [true_severity, one_severity]"
    by (simp add: key_samples)
  have sv2: "list_all severity_record [true_severity, one_severity]"
    by (simp add: key_samples)
  have a: "(\<exists>s. json_generate_summary [info_violation, high_violation, no_severity, info_violation] =
          Inr s \<and>
        by_severity s = [(JStr ''INFO'', 2), (JStr ''HIGH'', 1), (JStr ''UNKNOWN'', 1)] \<and>
        sum_list (map snd (by_severity s)) = 4 \<and> total_violations s = 4) \<and>
      (\<exists>h. html_generate_summary [info_violation, high_violation, no_severity, info_violation] =
          Inr h \<and>
        total_html h = 4 \<and> critical h + high h + medium h + low h = 1)"
    using severity_summaries [OF wf sv]
    by (simp add: json_info html_info)
  have b: "\<exists>s. json_generate_summary [true_severity, one_severity] = Inr s \<and>
        by_severity s = [(JBool True, 2)] \<and>
        tally (by_severity s) (JInt 1) = 2 \<and> tally (by_severity s) (JBool True) = 2 \<and>
        tally (by_severity s) (JStr ''1'') = 0"
    using conjunct1 [OF severity_summaries [OF wf2 sv2]]
    by (simp add: json_true_one key_samples)
  show ?thesis
    using wf sv wf2 sv2 a b by simp
qed

text \<open>
  C10, as stated, fails for a violation whose severity is a list: it is a value
  outside the four, but looking it up in the dictionary of the groups raises
  \<^verbatim>\<open>TypeError\<close>, and no group receives the violation.
\<close>

theorem group_violations_counterexample:
  "group_violations [list_severity] = Inl TypeError"
  by (simp add: group_violations_def group_violation_def list_severity_def dict_contains_def)

text \<open>
  C10, amended. For violations that are mappings with a hashable severity (a string,
  a number, a boolean, \<^verbatim>\<open>None\<close>, or none), \<^verbatim>\<open>_group_violations\<close> returns exactly the four
  groups CRITICAL, HIGH, MEDIUM and LOW, each the violations of its kind in the order
  of the input; a violation whose severity is missing or is any other hashable value
  is in the MEDIUM group. The four kinds exclude each other, and the sizes of the
  groups add up to the length of the input. When the violations are mappings and the
  severity of one of them is a list or a mapping, \<^verbatim>\<open>_group_violations\<close> raises
  \<^verbatim>\<open>TypeError\<close> and returns no groups.
\<close>

theorem group_violations_partition:
  "(list_all severity_record violations \<longrightarrow>
      group_violations violations =
              Inr [(JStr ''CRITICAL'', filter (\<lambda>v. severity_of v = JStr ''CRITICAL'') violations),
                   (JStr ''HIGH'', filter (\<lambda>v. severity_of v = JStr ''HIGH'') violations),
                   (JStr ''MEDIUM'',
                    filter (\<lambda>v. severity_of v \<notin> {JStr ''CRITICAL'', JStr ''HIGH'', JStr ''LOW''})
                      violations),
                   (JStr ''LOW'', filter (\<lambda>v. severity_of v = JStr ''LOW'') violations)] \<and>
            length (filter (\<lambda>v. severity_of v = JStr ''CRITICAL'') violations) +
            length (filter (\<lambda>v. severity_of v = JStr ''HIGH'') violations) +
            length (filter (\<lambda>v. severity_of v \<notin> {JStr ''CRITICAL'', JStr ''HIGH'', JStr ''LOW''})
                      violations) +
            length (filter (\<lambda>v. severity_of v = JStr ''LOW'') violations) = length violations) \<and>
   (list_all is_dict violations \<and> \<not> list_all severity_record violations \<longrightarrow>
      group_violations violations = Inl TypeError)"
proof (rule conjI; rule impI)
  assume "list_all severity_record violations"
  then show "group_violations violations =
           Inr [(JStr ''CRITICAL'', filter (\<lambda>v. severity_of v = JStr ''CRITICAL'') violations),
                (JStr ''HIGH'', filter (\<lambda>v. severity_of v = JStr ''HIGH'') violations),
                (JStr ''MEDIUM'',
                 filter (\<lambda>v. severity_of v \<notin> {JStr ''CRITICAL'', JStr ''HIGH'', JStr ''LOW''})
                   violations),
                (JStr ''LOW'', filter (\<lambda>v. severity_of v = JStr ''LOW'') violations)] \<and>
         length (filter (\<lambda>v. severity_of v = JStr ''CRITICAL'') violations) +
         length (filter (\<lambda>v. severity_of v = JStr ''HIGH'') violations) +
         length (filter (\<lambda>v. severity_of v \<notin> {JStr ''CRITICAL'', JStr ''HIGH'', JStr ''LOW''})
                   violations) +
         length (filter (\<lambda>v. severity_of v = JStr ''LOW'') violations) = length violations"
    by (rule group_violations_ok)
next
  assume "list_all is_dict violations \<and> \<not> list_all severity_record violations"
  then show "group_violations violations = Inl TypeError"
    using group_all_raises [of violations "[]" "[]" "[]" "[]"]
    by (simp add: group_violations_def)
qed

theorem group_violations_partition_witness:
  "list_all severity_record [info_violation, high_violation, no_severity] \<and>
   group_violations [info_violation, high_violation, no_severity] =
     Inr [(JStr ''CRITICAL'', []), (JStr ''HIGH'', [high_violation]),
          (JStr ''MEDIUM'', [info_violation, no_severity]), (JStr ''LOW'', [])] \<and>
   list_all is_dict [high_violation, list_severity] \<and>
   \<not> list_all severity_record [high_violation, list_severity] \<and>
   group_violations [high_violation, list_severity] = Inl TypeError"
proof -
  have wf: "list_all severity_record [info_violation, high_violation, no_severity]"
    by (simp add: sample_severity_records)
  have d: "list_all is_dict [high_violation, list_severity]"
    using sample_severity_records(1) list_severity_dict(1) by (simp add: severity_record_def)
  have n: "\<not> list_all severity_record [high_violation, list_severity]"
    using list_severity_dict(2) by simp
  have a: "group_violations [info_violation, high_violation, no_severity] =
     Inr [(JStr ''CRITICAL'', []), (JStr ''HIGH'', [high_violation]),
          (JStr ''MEDIUM'', [info_violation, no_severity]), (JStr ''LOW'', [])]"
    using group_violations_partition [of "[info_violation, high_violation, no_severity]"] wf
    by (simp add: sample_severities)
  have b: "group_violations [high_violation, list_severity] = Inl TypeError"
    using group_violations_partition [of "[high_violation, list_severity]"] d n
    by blast
  show ?thesis
    using wf d n a b by blast
qed

end
